theory Spec2Isabelle
  imports Complex_Main "HOL-Library.Multiset" "HOL-Library.Product_Lexorder"
begin

section \<open>Numbers, errors and Python primitives\<close>

text \<open>
  Floating-point numbers are idealised as exact reals. The one non-finite value the
  pipeline can produce from finite inputs is numpy's \<open>nan\<close> (a division \<open>0.0 / 0.0\<close>,
  which numpy answers with a warning, not an exception), so a derived column holds an
  \<open>npfloat\<close>: a finite real or \<open>NaN\<close>. Input cells of the tables are finite reals.
\<close>

datatype npfloat = Fin real | NaN

text \<open>Arithmetic with a finite operand: \<open>nan\<close> propagates.\<close>

definition np_map :: "(real \<Rightarrow> real) \<Rightarrow> npfloat \<Rightarrow> npfloat" where
  "np_map f v = (case v of Fin x \<Rightarrow> Fin (f x) | NaN \<Rightarrow> NaN)"

text \<open>
  Array division as \<open>zscore_normalisation\<close> uses it. The divisor is a standard deviation;
  when it is zero every numerator is zero as well (lemma \<open>np_std_zero_iff\<close> below), so the
  zero-divisor case is always \<open>0.0 / 0.0 = nan\<close>.
\<close>

definition np_div :: "real \<Rightarrow> real \<Rightarrow> npfloat" where
  "np_div a b = (if b = 0 then NaN else Fin (a / b))"

text \<open>Round half to even, as \<open>numpy.rint\<close>; \<open>round(2)\<close> rounds to two decimals.\<close>

definition rint :: "real \<Rightarrow> int" where
  "rint x = (let f = \<lfloor>x\<rfloor>; d = x - of_int f
             in if d < 1 / 2 then f else if 1 / 2 < d then f + 1
                else if even f then f else f + 1)"

definition round2 :: "real \<Rightarrow> real" where
  "round2 x = of_int (rint (x * 100)) / 100"

definition np_round2 :: "npfloat \<Rightarrow> npfloat" where
  "np_round2 v = np_map round2 v"

text \<open>
  \<open>sort_values(ascending=False)\<close> orders by decreasing value and puts \<open>nan\<close> last. The
  key below turns that into an ascending order. In \<open>sort_values_desc\<close> ties keep their
  order (a stable sort); the default sort of the library is not stable, and the statement
  that depends on the order of tied rows is made for every sort (\<open>sort_values_by\<close> below).
\<close>

definition desc_key :: "npfloat \<Rightarrow> bool \<times> real" where
  "desc_key v = (case v of Fin x \<Rightarrow> (False, - x) | NaN \<Rightarrow> (True, 0))"

definition sort_values_desc :: "('a \<Rightarrow> npfloat) \<Rightarrow> 'a list \<Rightarrow> 'a list" where
  "sort_values_desc col rows = sort_key (\<lambda>r. desc_key (col r)) rows"

datatype error = IndexError | KeyError | MathDomainError | NotFittedError | ValueError

text \<open>Python list indexing: a negative index counts from the end.\<close>

definition py_index :: "'a list \<Rightarrow> int \<Rightarrow> error + 'a" where
  "py_index xs j =
     (if 0 \<le> j \<and> j < int (length xs) then Inr (xs ! nat j)
      else if j < 0 \<and> - int (length xs) \<le> j then Inr (xs ! nat (int (length xs) + j))
      else Inl IndexError)"

text \<open>\<open>math.log\<close> of an integer: a \<open>ValueError\<close> (math domain error) unless positive.\<close>

definition math_log :: "int \<Rightarrow> error + real" where
  "math_log n = (if n \<le> 0 then Inl MathDomainError else Inr (ln (real_of_int n)))"

text \<open>\<open>range(a, b)\<close> and the test \<open>i in range(a, b)\<close>.\<close>

definition py_range :: "int \<Rightarrow> int \<Rightarrow> int list" where
  "py_range a b = [a..b - 1]"

definition in_range :: "int \<Rightarrow> int \<Rightarrow> int \<Rightarrow> bool" where
  "in_range i a b = (a \<le> i \<and> i < b)"

section \<open>Normalisation utilities\<close>

definition np_mean :: "real list \<Rightarrow> real" where
  "np_mean xs = sum_list xs / real (length xs)"

definition np_std :: "real list \<Rightarrow> real" where
  "np_std xs = sqrt (np_mean (map (\<lambda>x. (x - np_mean xs)\<^sup>2) xs))"

definition zscore_normalisation :: "real list \<Rightarrow> npfloat list" where
  "zscore_normalisation array =
     (let mu = np_mean array; sigma = np_std array
      in map (\<lambda>x. np_div (x - mu) sigma) array)"

section \<open>The fixture table and \<open>FDRValueModel\<close>\<close>

text \<open>
  A row of the fixture table: the team and the ratings under the \<open>gw...\<close> columns, in
  column order (the list \<open>gws\<close> of the source). The column \<open>position\<close> of the table is
  read by the plots only and is left out. The table either has no \<open>FDR value\<close> column
  yet or has one; the model's only attribute is this table.
\<close>

record team_row =
  team :: string

record fixture_row = team_row +
  ratings :: "real list"

record scored_row = fixture_row +
  fdr_value :: npfloat

datatype fixtures_df = Unscored "fixture_row list" | Scored "scored_row list"

definition base_rows :: "fixtures_df \<Rightarrow> fixture_row list" where
  "base_rows df =
     (case df of Unscored rs \<Rightarrow> rs
      | Scored rs \<Rightarrow> map (\<lambda>r. \<lparr>team = team r, ratings = ratings r\<rparr>) rs)"

text \<open>The inner loop of the branch \<open>wc_gw == 0\<close>, over the indices still to visit.\<close>

fun no_wc_loop :: "int \<Rightarrow> int \<Rightarrow> real list \<Rightarrow> int list \<Rightarrow> real \<Rightarrow> error + real" where
  "no_wc_loop gw fh_gw row [] fdr = Inr fdr"
| "no_wc_loop gw fh_gw row (i # js) fdr =
     (if i = fh_gw then no_wc_loop gw fh_gw row js fdr
      else if in_range i gw (gw + 6) then
        (case py_index row (i - 1) of Inl e \<Rightarrow> Inl e
         | Inr d \<Rightarrow>
            (case math_log (- i + 8) of Inl e \<Rightarrow> Inl e
             | Inr w \<Rightarrow> no_wc_loop gw fh_gw row js (fdr + d * w)))
      else if in_range i (gw + 6) (gw + 10) then
        (case py_index row (i - 1) of Inl e \<Rightarrow> Inl e
         | Inr d \<Rightarrow> no_wc_loop gw fh_gw row js (fdr + d * (- (real_of_int i / 25) + 0.5)))
      else no_wc_loop gw fh_gw row js fdr)"

text \<open>The inner loop of the wildcard branch.\<close>

fun wc_loop :: "int \<Rightarrow> int \<Rightarrow> real list \<Rightarrow> int list \<Rightarrow> real \<Rightarrow> error + real" where
  "wc_loop wc_gw fh_gw row [] fdr = Inr fdr"
| "wc_loop wc_gw fh_gw row (i # js) fdr =
     (if i = fh_gw then wc_loop wc_gw fh_gw row js fdr
      else
        (case py_index row (i - 1) of Inl e \<Rightarrow> Inl e
         | Inr d \<Rightarrow>
            (case math_log (- i + wc_gw + 1) of Inl e \<Rightarrow> Inl e
             | Inr w \<Rightarrow> wc_loop wc_gw fh_gw row js (fdr + d * w))))"

text \<open>The loop over the rows: the first exception ends the call.\<close>

fun each_row :: "('r \<Rightarrow> error + 'v) \<Rightarrow> 'r list \<Rightarrow> error + 'v list" where
  "each_row f [] = Inr []"
| "each_row f (r # rs) =
     (case f r of Inl e \<Rightarrow> Inl e
      | Inr v \<Rightarrow> (case each_row f rs of Inl e \<Rightarrow> Inl e | Inr vs \<Rightarrow> Inr (v # vs)))"

definition raw_fdr :: "int \<Rightarrow> int \<Rightarrow> int \<Rightarrow> real list \<Rightarrow> error + real" where
  "raw_fdr gw wc_gw fh_gw row =
     (if wc_gw = 0 then no_wc_loop gw fh_gw row (py_range gw (gw + 10)) 0
      else wc_loop wc_gw fh_gw row (py_range gw wc_gw) 0)"

definition fdr_score :: "npfloat \<Rightarrow> npfloat" where
  "fdr_score z = np_map (\<lambda>x. - (x / 2) + 5) z"

definition set_fdr_column :: "fixture_row list \<Rightarrow> npfloat list \<Rightarrow> scored_row list" where
  "set_fdr_column rows vs =
     map (\<lambda>(r, v). \<lparr>team = team r, ratings = ratings r, fdr_value = v\<rparr>) (zip rows vs)"

definition round_row :: "scored_row \<Rightarrow> scored_row" where
  "round_row r = r\<lparr>ratings := map round2 (ratings r), fdr_value := np_round2 (fdr_value r)\<rparr>"

text \<open>
  \<open>get_fdr_value\<close>: the result is the new table of the model (which the source also
  returns as a copy). On an exception nothing has been assigned yet, and the table of
  the model is the one before the call.
\<close>

definition get_fdr_value :: "int \<Rightarrow> int \<Rightarrow> int \<Rightarrow> fixtures_df \<Rightarrow> error + fixtures_df" where
  "get_fdr_value gw wc_gw fh_gw df =
     (case each_row (\<lambda>r. raw_fdr gw wc_gw fh_gw (ratings r)) (base_rows df) of
        Inl e \<Rightarrow> Inl e
      | Inr fdr_results \<Rightarrow>
          Inr (Scored (map round_row (sort_values_desc fdr_value
                 (set_fdr_column (base_rows df)
                    (map fdr_score (zscore_normalisation fdr_results)))))))"

text \<open>
  \<open>get_fdr_value_by_team\<close>: selecting the column of a table that has none is a
  \<open>KeyError\<close>; \<open>.values[0]\<close> of an empty selection is an \<open>IndexError\<close>.
\<close>

definition get_fdr_value_by_team :: "fixtures_df \<Rightarrow> string \<Rightarrow> error + npfloat" where
  "get_fdr_value_by_team df team_name =
     (case df of Unscored rs \<Rightarrow> Inl KeyError
      | Scored rs \<Rightarrow>
          (case filter (\<lambda>r. team r = team_name) rs of
             [] \<Rightarrow> Inl IndexError
           | r # _ \<Rightarrow> Inr (fdr_value r)))"

section \<open>\<open>CleanSheetPointsModel\<close>\<close>

text \<open>
  The scaler and the regressor are objects of scikit-learn, which is not part of the
  repository: the model takes the library as a parameter. \<open>scaler_fit\<close> and \<open>sgd_fit\<close>
  return the fitted parameters or the exception the library raises (on empty or
  mismatched data); with the seed fixed (\<open>random_state=42\<close>) fitting is a function of
  the data. Transforming and predicting a finite number with a fitted object do not fail.
\<close>

record ('sc, 'm) sklearn =
  scaler_fit :: "real list \<Rightarrow> error + 'sc"
  scaler_transform :: "'sc \<Rightarrow> real \<Rightarrow> real"
  sgd_fit :: "real list \<Rightarrow> real list \<Rightarrow> error + 'm"
  sgd_predict :: "'m \<Rightarrow> real \<Rightarrow> real"

text \<open>
  The attributes of the instance. \<open>scaler\<close> and \<open>sgdr\<close> hold the fitted parameters
  (\<open>None\<close> for an object not fitted yet). \<open>fit_calls\<close> is bookkeeping of the embedding, not
  an attribute of the source: it counts the calls of \<open>self.sgdr.fit\<close>.
\<close>

record ('sc, 'm) cs_model =
  x_data :: "real list"
  y_data :: "real list"
  scaler :: "'sc option"
  sgdr :: "'m option"
  is_trained :: bool
  fit_calls :: nat

definition cs_init :: "real list \<Rightarrow> real list \<Rightarrow> ('sc, 'm) cs_model" where
  "cs_init xs ys =
     \<lparr>x_data = xs, y_data = ys, scaler = None, sgdr = None, is_trained = False, fit_calls = 0\<rparr>"

text \<open>
  An operation returns the exception it raised, if any, and the instance as the
  operation leaves it: an exception of \<open>self.sgdr.fit\<close> comes after the scaler was fitted.
\<close>

definition train_model ::
  "('sc, 'm) sklearn \<Rightarrow> ('sc, 'm) cs_model \<Rightarrow> error option \<times> ('sc, 'm) cs_model" where
  "train_model sk m =
     (case scaler_fit sk (x_data m) of
        Inl e \<Rightarrow> (Some e, m)
      | Inr sc \<Rightarrow>
          (let x_data_norm = map (scaler_transform sk sc) (x_data m);
               m1 = m\<lparr>scaler := Some sc, fit_calls := fit_calls m + 1\<rparr>
           in case sgd_fit sk x_data_norm (y_data m) of
                Inl e \<Rightarrow> (Some e, m1)
              | Inr p \<Rightarrow> (None, m1\<lparr>sgdr := Some p, is_trained := True\<rparr>)))"

definition predict ::
  "('sc, 'm) sklearn \<Rightarrow> ('sc, 'm) cs_model \<Rightarrow> real \<Rightarrow> (error + real) \<times> ('sc, 'm) cs_model" where
  "predict sk m xgcp90 =
     (case (if \<not> is_trained m then train_model sk m else (None, m)) of
        (Some e, m') \<Rightarrow> (Inl e, m')
      | (None, m') \<Rightarrow>
          (case scaler m' of
             None \<Rightarrow> (Inl NotFittedError, m')
           | Some sc \<Rightarrow>
               (case sgdr m' of
                  None \<Rightarrow> (Inl NotFittedError, m')
                | Some p \<Rightarrow> (Inr (sgd_predict sk p (scaler_transform sk sc xgcp90)), m'))))"

text \<open>The operations of an instance, and a run of them.\<close>

datatype cs_op = Train | Predict real

fun cs_step :: "('sc, 'm) sklearn \<Rightarrow> ('sc, 'm) cs_model \<Rightarrow> cs_op \<Rightarrow> ('sc, 'm) cs_model" where
  "cs_step sk m Train = snd (train_model sk m)"
| "cs_step sk m (Predict x) = snd (predict sk m x)"

definition cs_run :: "('sc, 'm) sklearn \<Rightarrow> ('sc, 'm) cs_model \<Rightarrow> cs_op list \<Rightarrow> ('sc, 'm) cs_model" where
  "cs_run sk m ops = foldl (cs_step sk) m ops"

section \<open>The player tables and \<open>AssetValueModel\<close>\<close>

text \<open>
  One record serves the four positions: a position's function reads only the columns
  its source reads, and a column that a position's table does not have is never read.
  Prices are positive, as the data model has it (for a price that is not, \<open>price ** 0.25\<close>
  is 0 or a complex number, which the embedding does not follow). A table either has
  the three derived columns \<open>xPts\<close>, \<open>FDR value\<close> and \<open>value\<close> or it has none of them.
\<close>

record player_row = team_row +
  player :: string
  price :: real
  xGp90 :: real
  xAp90 :: real
  xGCp90 :: real
  saves :: real
  bps :: real
  defcon :: real
  yc :: real

record valued_row = player_row +
  xPts :: real
  FDR_value :: npfloat
  asset_value :: npfloat

datatype player_df = Plain "player_row list" | Valued "valued_row list"

definition strip_row :: "valued_row \<Rightarrow> player_row" where
  "strip_row r =
     \<lparr>team = team r, player = player r, price = price r, xGp90 = xGp90 r, xAp90 = xAp90 r,
      xGCp90 = xGCp90 r, saves = saves r, bps = bps r, defcon = defcon r, yc = yc r\<rparr>"

definition player_rows :: "player_df \<Rightarrow> player_row list" where
  "player_rows df = (case df of Plain rs \<Rightarrow> rs | Valued rs \<Rightarrow> map strip_row rs)"

datatype position = GK | DEF | MID | FWD

record ('sc, 'm) asset_value_model =
  goalkeepers :: player_df
  defenders :: player_df
  midfielders :: player_df
  forwards :: player_df
  fdr_value_model :: fixtures_df
  clean_sheet_points_model_gk_def :: "('sc, 'm) cs_model"
  clean_sheet_points_model_mid :: "('sc, 'm) cs_model"

text \<open>The expected points of a row, given the predicted clean sheet points.\<close>

definition xpts_gk :: "real \<Rightarrow> player_row \<Rightarrow> real" where
  "xpts_gk cs_pts row = 2 + cs_pts + saves row / 3 + bps row - yc row"

definition xpts_def :: "real \<Rightarrow> player_row \<Rightarrow> real" where
  "xpts_def cs_pts row =
     (if defcon row < 5 then
        2 + xGp90 row * 6 + xAp90 row * 3 + cs_pts + bps row + defcon row / 1000 - yc row
      else if 5 \<le> defcon row \<and> defcon row \<le> 13.33 then
        2 + xGp90 row * 6 + xAp90 row * 3 + cs_pts + bps row
          + ((defcon row - 5) powr 1.2 / 6.38 + 0.005) - yc row
      else 2 + xGp90 row * 6 + xAp90 row * 3 + cs_pts + bps row + 2 - yc row)"

definition xpts_mid :: "real \<Rightarrow> player_row \<Rightarrow> real" where
  "xpts_mid cs_pts row =
     (if defcon row < 6 then
        2 + xGp90 row * 5 + xAp90 row * 3 + cs_pts + bps row + defcon row / 1000 - yc row
      else if 6 \<le> defcon row \<and> defcon row \<le> 16 then
        2 + xGp90 row * 5 + xAp90 row * 3 + cs_pts + bps row
          + ((defcon row - 6) powr 1.2 / 8 + 0.006) - yc row
      else 2 + xGp90 row * 5 + xAp90 row * 3 + cs_pts + bps row + 2 - yc row)"

definition xpts_fwd :: "player_row \<Rightarrow> real" where
  "xpts_fwd row =
     (if defcon row < 6 then
        2 + xGp90 row * 4 + xAp90 row * 3 + bps row + defcon row / 1000 - yc row
      else if 6 \<le> defcon row \<and> defcon row \<le> 16 then
        2 + xGp90 row * 4 + xAp90 row * 3 + bps row
          + ((defcon row - 6) powr 1.2 / 8 + 0.006) - yc row
      else 2 + xGp90 row * 4 + xAp90 row * 3 + bps row + 2 - yc row)"

text \<open>
  The first half of a loop body: the prediction (goalkeepers and defenders share one
  predictor, midfielders have their own, forwards use none) and the expected points.
\<close>

fun expected_points ::
  "('sc, 'm) sklearn \<Rightarrow> position \<Rightarrow> ('sc, 'm) asset_value_model \<Rightarrow> player_row
     \<Rightarrow> error + real \<times> ('sc, 'm) asset_value_model" where
  "expected_points sk GK s row =
     (case predict sk (clean_sheet_points_model_gk_def s) (xGCp90 row) of
        (Inl e, m) \<Rightarrow> Inl e
      | (Inr cs_pts, m) \<Rightarrow> Inr (xpts_gk cs_pts row, s\<lparr>clean_sheet_points_model_gk_def := m\<rparr>))"
| "expected_points sk DEF s row =
     (case predict sk (clean_sheet_points_model_gk_def s) (xGCp90 row) of
        (Inl e, m) \<Rightarrow> Inl e
      | (Inr cs_pts, m) \<Rightarrow> Inr (xpts_def cs_pts row, s\<lparr>clean_sheet_points_model_gk_def := m\<rparr>))"
| "expected_points sk MID s row =
     (case predict sk (clean_sheet_points_model_mid s) (xGCp90 row) of
        (Inl e, m) \<Rightarrow> Inl e
      | (Inr cs_pts, m) \<Rightarrow> Inr (xpts_mid cs_pts row, s\<lparr>clean_sheet_points_model_mid := m\<rparr>))"
| "expected_points sk FWD s row = Inr (xpts_fwd row, s)"

text \<open>\<open>AssetValueModel.get_fdr_value\<close>: recompute the whole table, then look the team up.\<close>

definition team_fdr_value ::
  "int \<Rightarrow> int \<Rightarrow> int \<Rightarrow> string \<Rightarrow> ('sc, 'm) asset_value_model
     \<Rightarrow> error + npfloat \<times> ('sc, 'm) asset_value_model" where
  "team_fdr_value gw wc_gw fh_gw team_name s =
     (case get_fdr_value gw wc_gw fh_gw (fdr_value_model s) of
        Inl e \<Rightarrow> Inl e
      | Inr df \<Rightarrow>
          (case get_fdr_value_by_team df team_name of
             Inl e \<Rightarrow> Inl e
           | Inr v \<Rightarrow> Inr (v, s\<lparr>fdr_value_model := df\<rparr>)))"

definition composite_value :: "real \<Rightarrow> npfloat \<Rightarrow> real \<Rightarrow> npfloat" where
  "composite_value xpts fdr p = np_map (\<lambda>f. (12 * xpts + 8 * f) / p powr 0.25) fdr"

text \<open>
  The loop over the rows of a position's table, which fills the three lists. An
  exception ends the call before \<open>update_df\<close>, so the table of the position is as before
  the call; the embedding does not follow the model after an exception (the fixture
  table and a predictor may have changed by then).
\<close>

fun asset_loop ::
  "('sc, 'm) sklearn \<Rightarrow> position \<Rightarrow> int \<Rightarrow> int \<Rightarrow> int \<Rightarrow> player_row list
     \<Rightarrow> ('sc, 'm) asset_value_model
     \<Rightarrow> error + (real list \<times> npfloat list \<times> npfloat list) \<times> ('sc, 'm) asset_value_model" where
  "asset_loop sk pos gw wc_gw fh_gw [] s = Inr (([], [], []), s)"
| "asset_loop sk pos gw wc_gw fh_gw (row # rows) s =
     (case expected_points sk pos s row of
        Inl e \<Rightarrow> Inl e
      | Inr (xpts, s1) \<Rightarrow>
          (case team_fdr_value gw wc_gw fh_gw (team row) s1 of
             Inl e \<Rightarrow> Inl e
           | Inr (fdr, s2) \<Rightarrow>
               (case asset_loop sk pos gw wc_gw fh_gw rows s2 of
                  Inl e \<Rightarrow> Inl e
                | Inr ((xpts_list, fdr_values, asset_values), s3) \<Rightarrow>
                    Inr ((xpts # xpts_list, fdr # fdr_values,
                          composite_value xpts fdr (price row) # asset_values), s3))))"

definition set_value_columns ::
  "player_row list \<Rightarrow> real list \<Rightarrow> npfloat list \<Rightarrow> npfloat list \<Rightarrow> valued_row list" where
  "set_value_columns rows xpts_list fdr_values asset_values =
     map (\<lambda>(r, x, f, a).
            \<lparr>team = team r, player = player r, price = price r, xGp90 = xGp90 r,
             xAp90 = xAp90 r, xGCp90 = xGCp90 r, saves = saves r, bps = bps r,
             defcon = defcon r, yc = yc r, xPts = x, FDR_value = f, asset_value = a\<rparr>)
         (zip rows (zip xpts_list (zip fdr_values asset_values)))"

definition round_valued_row :: "valued_row \<Rightarrow> valued_row" where
  "round_valued_row r =
     r\<lparr>price := round2 (price r), xGp90 := round2 (xGp90 r), xAp90 := round2 (xAp90 r),
       xGCp90 := round2 (xGCp90 r), saves := round2 (saves r), bps := round2 (bps r),
       defcon := round2 (defcon r), yc := round2 (yc r), xPts := round2 (xPts r),
       FDR_value := np_round2 (FDR_value r), asset_value := np_round2 (asset_value r)\<rparr>"

text \<open>
  \<open>update_df\<close>: the three columns are set and the table is sorted in place. The last
  statement, \<open>df.round(2)\<close>, builds a rounded table and drops it: \<open>round\<close> is not an
  in-place operation and its result is not assigned.
\<close>

definition update_df ::
  "player_row list \<Rightarrow> real list \<Rightarrow> npfloat list \<Rightarrow> npfloat list \<Rightarrow> valued_row list" where
  "update_df rows xpts_list fdr_values asset_values =
     (let df = sort_values_desc asset_value
                 (set_value_columns rows xpts_list fdr_values asset_values);
          dropped = map round_valued_row df
      in df)"

definition position_table :: "position \<Rightarrow> ('sc, 'm) asset_value_model \<Rightarrow> player_df" where
  "position_table pos s =
     (case pos of GK \<Rightarrow> goalkeepers s | DEF \<Rightarrow> defenders s
      | MID \<Rightarrow> midfielders s | FWD \<Rightarrow> forwards s)"

definition set_position_table ::
  "position \<Rightarrow> player_df \<Rightarrow> ('sc, 'm) asset_value_model \<Rightarrow> ('sc, 'm) asset_value_model" where
  "set_position_table pos df s =
     (case pos of GK \<Rightarrow> s\<lparr>goalkeepers := df\<rparr> | DEF \<Rightarrow> s\<lparr>defenders := df\<rparr>
      | MID \<Rightarrow> s\<lparr>midfielders := df\<rparr> | FWD \<Rightarrow> s\<lparr>forwards := df\<rparr>)"

text \<open>
  The four functions \<open>get_asset_value_gk\<close>, \<open>..._def\<close>, \<open>..._mid\<close> and \<open>..._fwd\<close> differ in
  the table they work on and in the first half of the loop body only. The result is the
  returned copy of the table and the model after the call.
\<close>

definition get_asset_value ::
  "('sc, 'm) sklearn \<Rightarrow> position \<Rightarrow> int \<Rightarrow> int \<Rightarrow> int \<Rightarrow> ('sc, 'm) asset_value_model
     \<Rightarrow> error + player_df \<times> ('sc, 'm) asset_value_model" where
  "get_asset_value sk pos gw wc_gw fh_gw s =
     (let rows = player_rows (position_table pos s)
      in case asset_loop sk pos gw wc_gw fh_gw rows s of
           Inl e \<Rightarrow> Inl e
         | Inr ((xpts_list, fdr_values, asset_values), s') \<Rightarrow>
             (let df = Valued (update_df rows xpts_list fdr_values asset_values)
              in Inr (df, set_position_table pos df s')))"

definition get_asset_value_gk ::
  "('sc, 'm) sklearn \<Rightarrow> int \<Rightarrow> int \<Rightarrow> int \<Rightarrow> ('sc, 'm) asset_value_model
     \<Rightarrow> error + player_df \<times> ('sc, 'm) asset_value_model" where
  "get_asset_value_gk sk = get_asset_value sk GK"

definition get_asset_value_def ::
  "('sc, 'm) sklearn \<Rightarrow> int \<Rightarrow> int \<Rightarrow> int \<Rightarrow> ('sc, 'm) asset_value_model
     \<Rightarrow> error + player_df \<times> ('sc, 'm) asset_value_model" where
  "get_asset_value_def sk = get_asset_value sk DEF"

definition get_asset_value_mid ::
  "('sc, 'm) sklearn \<Rightarrow> int \<Rightarrow> int \<Rightarrow> int \<Rightarrow> ('sc, 'm) asset_value_model
     \<Rightarrow> error + player_df \<times> ('sc, 'm) asset_value_model" where
  "get_asset_value_mid sk = get_asset_value sk MID"

definition get_asset_value_fwd ::
  "('sc, 'm) sklearn \<Rightarrow> int \<Rightarrow> int \<Rightarrow> int \<Rightarrow> ('sc, 'm) asset_value_model
     \<Rightarrow> error + player_df \<times> ('sc, 'm) asset_value_model" where
  "get_asset_value_fwd sk = get_asset_value sk FWD"

section \<open>The chip prompt of \<open>System\<close>\<close>

text \<open>
  \<open>get_chip_gw\<close> reads entries until one is valid. The entries the user types are a list
  (\<open>None\<close> for one that is no integer); with no entry left the prompt is still waiting.
\<close>

fun get_chip_gw :: "int \<Rightarrow> int option list \<Rightarrow> int option" where
  "get_chip_gw gw [] = None"
| "get_chip_gw gw (entry # entries) =
     (case entry of None \<Rightarrow> get_chip_gw gw entries
      | Some chip_gw \<Rightarrow>
          if (1 \<le> gw \<and> gw \<le> 19 \<and> max 2 gw \<le> chip_gw \<and> chip_gw \<le> 19)
             \<or> (20 \<le> gw \<and> gw \<le> 38 \<and> max 20 gw \<le> chip_gw \<and> chip_gw \<le> 38)
             \<or> chip_gw = 0
          then Some chip_gw else get_chip_gw gw entries)"

section \<open>Definitions for the statements\<close>

text \<open>
  The closed form of the raw score in the branch \<open>wc_gw == 0\<close>, in the words of the
  specification: the rating at gameweek \<open>i\<close> is the entry \<open>gws[i - 1]\<close>, the weight is
  \<open>ln (8 - i)\<close> on the first six weeks of the window and \<open>0.5 - i / 25\<close> on the last four.
\<close>

definition rating_at :: "real list \<Rightarrow> int \<Rightarrow> real" where
  "rating_at row i = (case py_index row (i - 1) of Inr d \<Rightarrow> d | Inl e \<Rightarrow> 0)"

definition window_weight :: "int \<Rightarrow> int \<Rightarrow> real" where
  "window_weight gw i =
     (if gw \<le> i \<and> i \<le> gw + 5 then ln (real_of_int (8 - i)) else 0.5 - real_of_int i / 25)"

definition window_sum :: "int \<Rightarrow> int \<Rightarrow> real list \<Rightarrow> real" where
  "window_sum gw fh_gw row =
     (\<Sum>i\<leftarrow>filter (\<lambda>i. i \<noteq> fh_gw) [gw..gw + 9]. rating_at row i * window_weight gw i)"

text \<open>A value that \<open>round(2)\<close> leaves as it is.\<close>

definition two_decimals :: "real \<Rightarrow> bool" where
  "two_decimals x = (round2 x = x)"

text \<open>The z-score of one value within an array, so that \<open>zscore_normalisation\<close> maps it.\<close>

definition zscore_of :: "real list \<Rightarrow> real \<Rightarrow> npfloat" where
  "zscore_of raws x = np_div (x - np_mean raws) (np_std raws)"

text \<open>
  The raw score of a row where \<open>raw_fdr\<close> returns one, the unrounded score of a row
  within a table, and a row with its score attached.
\<close>

definition raw_of :: "int \<Rightarrow> int \<Rightarrow> int \<Rightarrow> fixture_row \<Rightarrow> real" where
  "raw_of gw wc fh r = (case raw_fdr gw wc fh (ratings r) of Inr v \<Rightarrow> v | Inl e \<Rightarrow> 0)"

definition score_of :: "int \<Rightarrow> int \<Rightarrow> int \<Rightarrow> fixture_row list \<Rightarrow> fixture_row \<Rightarrow> npfloat" where
  "score_of gw wc fh rows r = fdr_score (zscore_of (map (raw_of gw wc fh) rows) (raw_of gw wc fh r))"

definition with_score :: "(fixture_row \<Rightarrow> npfloat) \<Rightarrow> fixture_row \<Rightarrow> scored_row" where
  "with_score g r = \<lparr>team = team r, ratings = ratings r, fdr_value = g r\<rparr>"

text \<open>A fixture table whose ratings all have at most two decimals.\<close>

definition rounded_ratings :: "fixtures_df \<Rightarrow> bool" where
  "rounded_ratings df = list_all (\<lambda>r. list_all two_decimals (ratings r)) (base_rows df)"

text \<open>
  \<open>defcon_term\<close> in the words of the specification, and its two parameter sets: the
  defenders' and the one that midfielders and forwards share.
\<close>

definition defcon_term :: "real \<Rightarrow> real \<Rightarrow> real \<Rightarrow> real \<Rightarrow> real \<Rightarrow> real \<Rightarrow> real" where
  "defcon_term d low mid_hi k scale offset =
     (if d < low then d / 1000
      else if low \<le> d \<and> d \<le> mid_hi then (d - low) powr k / scale + offset
      else 2)"

definition defender_defcon :: "real \<Rightarrow> real" where
  "defender_defcon d = defcon_term d 5 13.33 1.2 6.38 0.005"

definition midfielder_defcon :: "real \<Rightarrow> real" where
  "midfielder_defcon d = defcon_term d 6 16 1.2 8 0.006"

text \<open>
  A predictor whose training has completed, and the prediction it makes from the fitted
  objects it holds.
\<close>

definition fitted :: "('sc, 'm) cs_model \<Rightarrow> bool" where
  "fitted m = (is_trained m \<and> scaler m \<noteq> None \<and> sgdr m \<noteq> None)"

definition cached_prediction :: "('sc, 'm) sklearn \<Rightarrow> ('sc, 'm) cs_model \<Rightarrow> real \<Rightarrow> real" where
  "cached_prediction sk m x =
     (case scaler m of None \<Rightarrow> 0
      | Some sc \<Rightarrow> (case sgdr m of None \<Rightarrow> 0
                    | Some p \<Rightarrow> sgd_predict sk p (scaler_transform sk sc x)))"

definition position_fitted :: "position \<Rightarrow> ('sc, 'm) asset_value_model \<Rightarrow> bool" where
  "position_fitted pos s =
     (case pos of GK \<Rightarrow> fitted (clean_sheet_points_model_gk_def s)
      | DEF \<Rightarrow> fitted (clean_sheet_points_model_gk_def s)
      | MID \<Rightarrow> fitted (clean_sheet_points_model_mid s)
      | FWD \<Rightarrow> True)"

text \<open>
  The three derived values of a row in a given state of the model, and the row with them.
\<close>

definition row_xpts ::
  "('sc, 'm) sklearn \<Rightarrow> position \<Rightarrow> ('sc, 'm) asset_value_model \<Rightarrow> player_row \<Rightarrow> real" where
  "row_xpts sk pos s row =
     (case pos of
        GK \<Rightarrow> xpts_gk (cached_prediction sk (clean_sheet_points_model_gk_def s) (xGCp90 row)) row
      | DEF \<Rightarrow> xpts_def (cached_prediction sk (clean_sheet_points_model_gk_def s) (xGCp90 row)) row
      | MID \<Rightarrow> xpts_mid (cached_prediction sk (clean_sheet_points_model_mid s) (xGCp90 row)) row
      | FWD \<Rightarrow> xpts_fwd row)"

definition row_fdr :: "('sc, 'm) asset_value_model \<Rightarrow> player_row \<Rightarrow> npfloat" where
  "row_fdr s row =
     (case get_fdr_value_by_team (fdr_value_model s) (team row) of Inr v \<Rightarrow> v | Inl e \<Rightarrow> NaN)"

definition row_value ::
  "('sc, 'm) sklearn \<Rightarrow> position \<Rightarrow> ('sc, 'm) asset_value_model \<Rightarrow> player_row \<Rightarrow> npfloat" where
  "row_value sk pos s row = composite_value (row_xpts sk pos s row) (row_fdr s row) (price row)"

definition valued ::
  "('sc, 'm) sklearn \<Rightarrow> position \<Rightarrow> ('sc, 'm) asset_value_model \<Rightarrow> player_row \<Rightarrow> valued_row" where
  "valued sk pos s r =
     \<lparr>team = team r, player = player r, price = price r, xGp90 = xGp90 r,
      xAp90 = xAp90 r, xGCp90 = xGCp90 r, saves = saves r, bps = bps r,
      defcon = defcon r, yc = yc r, xPts = row_xpts sk pos s r, FDR_value = row_fdr s r,
      asset_value = row_value sk pos s r\<rparr>"

text \<open>
  A state in which a further call fits nothing and recomputes the fixture table to
  itself.
\<close>

definition settled ::
  "position \<Rightarrow> int \<Rightarrow> int \<Rightarrow> int \<Rightarrow> ('sc, 'm) asset_value_model \<Rightarrow> bool" where
  "settled pos gw wc fh s =
     (position_fitted pos s
      \<and> get_fdr_value gw wc fh (fdr_value_model s) = Inr (fdr_value_model s))"

section \<open>Example tables\<close>

definition example_fixtures :: fixtures_df where
  "example_fixtures = Unscored
     [\<lparr>team = ''A'', ratings = [3, 3, 3, 3, 3, 3, 3, 3, 3, 3]\<rparr>,
      \<lparr>team = ''B'', ratings = [1, 1, 1, 1, 1, 1, 1, 1, 1, 1]\<rparr>]"

definition example_scored :: fixtures_df where
  "example_scored = Scored
     [\<lparr>team = ''B'', ratings = [1, 1, 1, 1, 1, 1, 1, 1, 1, 1], fdr_value = Fin 5.5\<rparr>,
      \<lparr>team = ''A'', ratings = [3, 3, 3, 3, 3, 3, 3, 3, 3, 3], fdr_value = Fin 4.5\<rparr>]"

text \<open>Ratings with three decimals.\<close>

definition fine_fixtures :: fixtures_df where
  "fine_fixtures = Unscored
     [\<lparr>team = ''A'', ratings = [3.001, 3, 3, 3, 3, 3, 3, 3, 3, 3]\<rparr>,
      \<lparr>team = ''B'', ratings = [3.002, 3, 3, 3, 3, 3, 3, 3, 3, 3]\<rparr>]"

definition fine_scored :: fixtures_df where
  "fine_scored = Scored
     [\<lparr>team = ''A'', ratings = [3, 3, 3, 3, 3, 3, 3, 3, 3, 3], fdr_value = Fin 5.5\<rparr>,
      \<lparr>team = ''B'', ratings = [3, 3, 3, 3, 3, 3, 3, 3, 3, 3], fdr_value = Fin 4.5\<rparr>]"

text \<open>Four teams that differ in gameweek 7 only.\<close>

definition spread_fixtures :: fixtures_df where
  "spread_fixtures = Unscored
     [\<lparr>team = ''A'', ratings = [3, 3, 3, 3, 3, 3, 5, 3, 3, 3]\<rparr>,
      \<lparr>team = ''B'', ratings = [3, 3, 3, 3, 3, 3, 1, 3, 3, 3]\<rparr>,
      \<lparr>team = ''C'', ratings = [3, 3, 3, 3, 3, 3, 2, 3, 3, 3]\<rparr>,
      \<lparr>team = ''D'', ratings = [3, 3, 3, 3, 3, 3, 2, 3, 3, 3]\<rparr>]"

definition spread_scored :: fixtures_df where
  "spread_scored = Scored
     [\<lparr>team = ''B'', ratings = [3, 3, 3, 3, 3, 3, 1, 3, 3, 3], fdr_value = Fin 5.5\<rparr>,
      \<lparr>team = ''C'', ratings = [3, 3, 3, 3, 3, 3, 2, 3, 3, 3], fdr_value = Fin 5.17\<rparr>,
      \<lparr>team = ''D'', ratings = [3, 3, 3, 3, 3, 3, 2, 3, 3, 3], fdr_value = Fin 5.17\<rparr>,
      \<lparr>team = ''A'', ratings = [3, 3, 3, 3, 3, 3, 5, 3, 3, 3], fdr_value = Fin 4.17\<rparr>]"

text \<open>A table with 17 gameweek columns.\<close>

definition late_fixtures :: fixtures_df where
  "late_fixtures = Unscored
     [\<lparr>team = ''A'', ratings = [3, 3, 3, 3, 3, 3, 3, 3, 3, 3, 3, 3, 3, 3, 3, 3, 3]\<rparr>,
      \<lparr>team = ''B'', ratings = [1, 1, 1, 1, 1, 1, 1, 1, 1, 1, 1, 1, 1, 1, 1, 1, 1]\<rparr>]"

text \<open>
  An instance of the library interface, to run the examples: the scaler centres the
  feature, the regressor is a least-squares line through the centred data. The theorems
  below hold for every library.
\<close>

definition toy_sklearn :: "(real, real \<times> real) sklearn" where
  "toy_sklearn =
     \<lparr>scaler_fit = (\<lambda>xs. if xs = [] then Inl ValueError else Inr (np_mean xs)),
      scaler_transform = (\<lambda>mu x. x - mu),
      sgd_fit = (\<lambda>xs ys. if xs = [] then Inl ValueError
                          else if length xs = length ys
                          then Inr (sum_list (map2 (*) xs ys) / sum_list (map2 (*) xs xs), np_mean ys)
                          else Inl ValueError),
      sgd_predict = (\<lambda>p x. fst p * x + snd p)\<rparr>"

definition toy_model :: "(real, real \<times> real) cs_model" where
  "toy_model = cs_init [1, 3] [4, 2]"

definition toy_trained :: "(real, real \<times> real) cs_model" where
  "toy_trained = \<lparr>x_data = [1, 3], y_data = [4, 2], scaler = Some 2, sgdr = Some (- 1, 3),
                   is_trained = True, fit_calls = 1\<rparr>"

text \<open>A goalkeeper table of one row, and a model that holds it.\<close>

definition example_keeper :: player_row where
  "example_keeper =
     \<lparr>team = ''A'', player = ''Keeper'', price = 16, xGp90 = 0, xAp90 = 0, xGCp90 = 1,
      saves = 1, bps = 0, defcon = 0, yc = 0\<rparr>"

definition keeper_valued :: "real \<Rightarrow> npfloat \<Rightarrow> npfloat \<Rightarrow> player_df" where
  "keeper_valued x f a = Valued
     [\<lparr>team = ''A'', player = ''Keeper'', price = 16, xGp90 = 0, xAp90 = 0, xGCp90 = 1,
       saves = 1, bps = 0, defcon = 0, yc = 0, xPts = x, FDR_value = f, asset_value = a\<rparr>]"

definition keeper_model ::
  "player_df \<Rightarrow> fixtures_df \<Rightarrow> (real, real \<times> real) cs_model
     \<Rightarrow> (real, real \<times> real) asset_value_model" where
  "keeper_model gks fixtures m =
     \<lparr>goalkeepers = gks, defenders = Plain [], midfielders = Plain [], forwards = Plain [],
      fdr_value_model = fixtures, clean_sheet_points_model_gk_def = m,
      clean_sheet_points_model_mid = toy_model\<rparr>"

text \<open>The table \<open>fine_scored\<close> after one more run of \<open>get_fdr_value\<close>.\<close>

definition fine_rescored :: fixtures_df where
  "fine_rescored = Scored
     [\<lparr>team = ''A'', ratings = [3, 3, 3, 3, 3, 3, 3, 3, 3, 3], fdr_value = NaN\<rparr>,
      \<lparr>team = ''B'', ratings = [3, 3, 3, 3, 3, 3, 3, 3, 3, 3], fdr_value = NaN\<rparr>]"

section \<open>The sort as a parameter\<close>

text \<open>
  \<open>sort_values\<close> is called with its default \<open>kind\<close>, which is not a stable sort: rows
  with equal values may come out in any order. Where a statement depends on the order of
  the rows, the sort is therefore a parameter: an argsort takes the list of keys and
  returns the positions in the order of the sorted table, and it is valid when the
  positions are a permutation and the keys read in that order are sorted.
\<close>

type_synonym argsort = "(bool \<times> real) list \<Rightarrow> nat list"

definition valid_argsort :: "argsort \<Rightarrow> bool" where
  "valid_argsort srt =
     (\<forall>ks. mset (srt ks) = mset [0..<length ks] \<and> sorted (map (\<lambda>i. ks ! i) (srt ks)))"

text \<open>\<open>sort_values(ascending=False)\<close> with a given argsort.\<close>

definition sort_values_by :: "argsort \<Rightarrow> ('a \<Rightarrow> npfloat) \<Rightarrow> 'a list \<Rightarrow> 'a list" where
  "sort_values_by srt col rows =
     map (\<lambda>i. rows ! i) (srt (map (\<lambda>r. desc_key (col r)) rows))"

text \<open>The stable argsort, with which \<open>sort_values_by\<close> is \<open>sort_values_desc\<close>.\<close>

definition stable_argsort :: argsort where
  "stable_argsort ks = sort_key (\<lambda>i. ks ! i) [0..<length ks]"

text \<open>
  The functions that sort a table, and those that call them, with the argsort as a
  parameter. Apart from the sort they are the definitions above.
\<close>

definition get_fdr_value_by ::
  "argsort \<Rightarrow> int \<Rightarrow> int \<Rightarrow> int \<Rightarrow> fixtures_df \<Rightarrow> error + fixtures_df" where
  "get_fdr_value_by srt gw wc_gw fh_gw df =
     (case each_row (\<lambda>r. raw_fdr gw wc_gw fh_gw (ratings r)) (base_rows df) of
        Inl e \<Rightarrow> Inl e
      | Inr fdr_results \<Rightarrow>
          Inr (Scored (map round_row (sort_values_by srt fdr_value
                 (set_fdr_column (base_rows df)
                    (map fdr_score (zscore_normalisation fdr_results)))))))"

definition team_fdr_value_by ::
  "argsort \<Rightarrow> int \<Rightarrow> int \<Rightarrow> int \<Rightarrow> string \<Rightarrow> ('sc, 'm) asset_value_model
     \<Rightarrow> error + npfloat \<times> ('sc, 'm) asset_value_model" where
  "team_fdr_value_by srt gw wc_gw fh_gw team_name s =
     (case get_fdr_value_by srt gw wc_gw fh_gw (fdr_value_model s) of
        Inl e \<Rightarrow> Inl e
      | Inr df \<Rightarrow>
          (case get_fdr_value_by_team df team_name of
             Inl e \<Rightarrow> Inl e
           | Inr v \<Rightarrow> Inr (v, s\<lparr>fdr_value_model := df\<rparr>)))"

fun asset_loop_by ::
  "argsort \<Rightarrow> ('sc, 'm) sklearn \<Rightarrow> position \<Rightarrow> int \<Rightarrow> int \<Rightarrow> int \<Rightarrow> player_row list
     \<Rightarrow> ('sc, 'm) asset_value_model
     \<Rightarrow> error + (real list \<times> npfloat list \<times> npfloat list) \<times> ('sc, 'm) asset_value_model" where
  "asset_loop_by srt sk pos gw wc_gw fh_gw [] s = Inr (([], [], []), s)"
| "asset_loop_by srt sk pos gw wc_gw fh_gw (row # rows) s =
     (case expected_points sk pos s row of
        Inl e \<Rightarrow> Inl e
      | Inr (xpts, s1) \<Rightarrow>
          (case team_fdr_value_by srt gw wc_gw fh_gw (team row) s1 of
             Inl e \<Rightarrow> Inl e
           | Inr (fdr, s2) \<Rightarrow>
               (case asset_loop_by srt sk pos gw wc_gw fh_gw rows s2 of
                  Inl e \<Rightarrow> Inl e
                | Inr ((xpts_list, fdr_values, asset_values), s3) \<Rightarrow>
                    Inr ((xpts # xpts_list, fdr # fdr_values,
                          composite_value xpts fdr (price row) # asset_values), s3))))"

definition update_df_by ::
  "argsort \<Rightarrow> player_row list \<Rightarrow> real list \<Rightarrow> npfloat list \<Rightarrow> npfloat list \<Rightarrow> valued_row list" where
  "update_df_by srt rows xpts_list fdr_values asset_values =
     (let df = sort_values_by srt asset_value
                 (set_value_columns rows xpts_list fdr_values asset_values);
          dropped = map round_valued_row df
      in df)"

definition get_asset_value_by ::
  "argsort \<Rightarrow> ('sc, 'm) sklearn \<Rightarrow> position \<Rightarrow> int \<Rightarrow> int \<Rightarrow> int
     \<Rightarrow> ('sc, 'm) asset_value_model \<Rightarrow> error + player_df \<times> ('sc, 'm) asset_value_model" where
  "get_asset_value_by srt sk pos gw wc_gw fh_gw s =
     (let rows = player_rows (position_table pos s)
      in case asset_loop_by srt sk pos gw wc_gw fh_gw rows s of
           Inl e \<Rightarrow> Inl e
         | Inr ((xpts_list, fdr_values, asset_values), s') \<Rightarrow>
             (let df = Valued (update_df_by srt rows xpts_list fdr_values asset_values)
              in Inr (df, set_position_table pos df s')))"

text \<open>
  A fixture table that \<open>get_fdr_value\<close> has scored from the base rows \<open>rows0\<close>: the
  ratings have at most two decimals, every raw score exists, and the table holds the rows
  in some order of decreasing score, each with its rounded score.
\<close>

definition fdr_ready :: "int \<Rightarrow> int \<Rightarrow> int \<Rightarrow> fixture_row list \<Rightarrow> fixtures_df \<Rightarrow> bool" where
  "fdr_ready gw wc fh rows0 df =
     (list_all (\<lambda>r. list_all two_decimals (ratings r)) rows0
      \<and> list_all (\<lambda>r. raw_fdr gw wc fh (ratings r) = Inr (raw_of gw wc fh r)) rows0
      \<and> (\<exists>rows. mset rows = mset rows0
            \<and> sorted (map (\<lambda>r. desc_key (score_of gw wc fh rows0 r)) rows)
            \<and> df = Scored (map round_row (map (with_score (score_of gw wc fh rows0)) rows))))"

text \<open>A second goalkeeper, and the table of both after a call at gameweek 1.\<close>

definition second_keeper :: player_row where
  "second_keeper =
     \<lparr>team = ''B'', player = ''Second keeper'', price = 16, xGp90 = 0, xAp90 = 0, xGCp90 = 2,
      saves = 3, bps = 0, defcon = 0, yc = 0\<rparr>"

definition two_keepers_valued :: "valued_row list" where
  "two_keepers_valued =
     [\<lparr>team = ''B'', player = ''Second keeper'', price = 16, xGp90 = 0, xAp90 = 0, xGCp90 = 2,
       saves = 3, bps = 0, defcon = 0, yc = 0, xPts = 6, FDR_value = Fin 5.5,
       asset_value = Fin 58\<rparr>,
      \<lparr>team = ''A'', player = ''Keeper'', price = 16, xGp90 = 0, xAp90 = 0, xGCp90 = 1,
       saves = 1, bps = 0, defcon = 0, yc = 0, xPts = 19 / 3, FDR_value = Fin 4.5,
       asset_value = Fin 56\<rparr>]"

section \<open>Lemmas on the primitives\<close>

lemma upto_from_1: "[1..numeral n] = 1 # [2..numeral n]"
  by (simp add: upto_rec1)

lemma round2_cents: "round2 (of_int k / 100) = of_int k / 100"
  by (simp add: round2_def rint_def)

lemma round2_of_int: "round2 (of_int k) = of_int k"
  using round2_cents[of "k * 100"] by simp

lemma round2_numeral [simp]: "round2 (numeral n) = numeral n"
  using round2_of_int[of "numeral n"] by simp

lemma round2_one [simp]: "round2 1 = 1"
  using round2_cents[of 100] by simp

lemma each_row_Inr_iff: "each_row f rs = Inr vs \<longleftrightarrow> map f rs = map Inr vs"
proof (induction rs arbitrary: vs)
  case Nil
  then show ?case by auto
next
  case (Cons r rs)
  show ?case
  proof (cases "f r")
    case (Inl e)
    then show ?thesis by auto
  next
    case (Inr v)
    note fr = this
    show ?thesis
    proof (cases "each_row f rs")
      case (Inl e)
      then have "\<And>ws. map f rs \<noteq> map Inr ws" using Cons.IH by auto
      then show ?thesis using fr Inl by (cases vs) auto
    next
      case (Inr ws)
      then have "map f rs = map Inr ws" using Cons.IH by simp
      then show ?thesis using fr Inr by (cases vs) (auto simp: inj_map_eq_map)
    qed
  qed
qed

lemma each_row_Inl: "each_row f rs = Inl e \<Longrightarrow> \<exists>r\<in>set rs. f r = Inl e"
  by (induction rs) (auto split: sum.splits)

lemma each_row_map:
  "(\<And>r. r \<in> set rs \<Longrightarrow> f r = Inr (g r)) \<Longrightarrow> each_row f rs = Inr (map g rs)"
  by (simp add: each_row_Inr_iff)

lemma each_row_length: "each_row f rs = Inr vs \<Longrightarrow> length vs = length rs"
  by (metis each_row_Inr_iff length_map)

subsection \<open>Mean, standard deviation and z-scores\<close>

lemma np_mean_sq_nonneg: "0 \<le> np_mean (map (\<lambda>x. (x - m)\<^sup>2) xs)"
  by (auto simp: np_mean_def intro!: divide_nonneg_nonneg sum_list_nonneg)

lemma np_std_zero_iff: "np_std xs = 0 \<longleftrightarrow> (\<forall>x\<in>set xs. x = np_mean xs)"
proof (cases "xs = []")
  case True
  then show ?thesis by (simp add: np_std_def np_mean_def)
next
  case False
  then have len: "0 < real (length xs)" by simp
  have "np_std xs = 0 \<longleftrightarrow> sum_list (map (\<lambda>x. (x - np_mean xs)\<^sup>2) xs) = 0"
    using len by (simp add: np_std_def np_mean_def[of "map _ _"])
  also have "\<dots> \<longleftrightarrow> (\<forall>y\<in>set (map (\<lambda>x. (x - np_mean xs)\<^sup>2) xs). y = 0)"
    by (rule sum_list_nonneg_eq_0_iff) auto
  also have "\<dots> \<longleftrightarrow> (\<forall>x\<in>set xs. x = np_mean xs)" by auto
  finally show ?thesis .
qed

lemma np_mean_const: "rs \<noteq> [] \<Longrightarrow> np_mean (map (\<lambda>r. c) rs) = c"
  by (simp add: np_mean_def sum_list_triv)

lemma np_std_const: "np_std (map (\<lambda>r. c) rs) = 0"
  by (cases "rs = []") (auto simp: np_std_zero_iff np_mean_const)

lemma zscore_const: "zscore_normalisation (map (\<lambda>r. c) rs) = map (\<lambda>r. NaN) rs"
  by (simp add: zscore_normalisation_def np_std_const np_div_def Let_def)

lemma zscore_length [simp]: "length (zscore_normalisation xs) = length xs"
  by (simp add: zscore_normalisation_def Let_def)

lemma zscore_pair_less:
  assumes "a < b"
  shows "zscore_normalisation [a, b] = [Fin (- 1), Fin 1]"
proof -
  have mu: "np_mean [a, b] = (a + b) / 2" by (simp add: np_mean_def)
  have "np_mean (map (\<lambda>x. (x - (a + b) / 2)\<^sup>2) [a, b]) = ((b - a) / 2)\<^sup>2"
    by (simp add: np_mean_def power2_eq_square field_simps)
  then have sd: "np_std [a, b] = (b - a) / 2"
    using assms by (simp add: np_std_def mu)
  show ?thesis using assms
    by (simp add: zscore_normalisation_def mu sd np_div_def Let_def field_simps)
qed

lemma zscore_pair_greater:
  assumes "b < a"
  shows "zscore_normalisation [a, b] = [Fin 1, Fin (- 1)]"
proof -
  have mu: "np_mean [a, b] = (a + b) / 2" by (simp add: np_mean_def)
  have "np_mean (map (\<lambda>x. (x - (a + b) / 2)\<^sup>2) [a, b]) = ((a - b) / 2)\<^sup>2"
    by (simp add: np_mean_def power2_eq_square field_simps)
  then have sd: "np_std [a, b] = (a - b) / 2"
    using assms by (simp add: np_std_def mu)
  show ?thesis using assms
    by (simp add: zscore_normalisation_def mu sd np_div_def Let_def field_simps)
qed

subsection \<open>The table returned by \<open>get_fdr_value\<close>\<close>

lemma get_fdr_value_Inr:
  assumes "get_fdr_value gw wc fh df = Inr df'"
  obtains raws where
    "each_row (\<lambda>r. raw_fdr gw wc fh (ratings r)) (base_rows df) = Inr raws"
    "length raws = length (base_rows df)"
    "df' = Scored (map round_row (sort_values_desc fdr_value
             (set_fdr_column (base_rows df) (map fdr_score (zscore_normalisation raws)))))"
proof (cases "each_row (\<lambda>r. raw_fdr gw wc fh (ratings r)) (base_rows df)")
  case (Inl e)
  then show ?thesis using assms by (simp add: get_fdr_value_def)
next
  case (Inr raws)
  then show ?thesis using assms that[of raws] each_row_length[OF Inr]
    by (simp add: get_fdr_value_def)
qed

lemma set_fdr_column_map:
  "set_fdr_column rows (map g rows) =
   map (\<lambda>r. \<lparr>team = team r, ratings = ratings r, fdr_value = g r\<rparr>) rows"
  by (induction rows) (auto simp: set_fdr_column_def)

lemma map_set_fdr_column:
  "length rows = length vs \<Longrightarrow>
   map (\<lambda>r. g (team r) (ratings r)) (set_fdr_column rows vs) =
   map (\<lambda>r. g (team r) (ratings r)) rows"
  by (induction rows vs rule: list_induct2) (auto simp: set_fdr_column_def)

lemma base_rows_Scored:
  "map (\<lambda>r. g (team r) (ratings r)) (base_rows (Scored rs)) =
   map (\<lambda>r. g (team r) (ratings r)) rs"
  by (simp add: base_rows_def o_def)

lemma sort_values_desc_const:
  "(\<And>r. r \<in> set rs \<Longrightarrow> col r = NaN) \<Longrightarrow> sort_values_desc col rs = rs"
  unfolding sort_values_desc_def
  by (rule sort_key_id_if_sorted) (simp add: sorted_wrt_iff_nth_less desc_key_def)

lemma get_fdr_value_frame:
  assumes "get_fdr_value gw wc fh df = Inr df'"
  shows "mset (map (\<lambda>r. (team r, ratings r)) (base_rows df')) =
         mset (map (\<lambda>r. (team r, map round2 (ratings r))) (base_rows df))"
proof -
  from assms obtain raws where len: "length raws = length (base_rows df)"
    and df': "df' = Scored (map round_row (sort_values_desc fdr_value
             (set_fdr_column (base_rows df) (map fdr_score (zscore_normalisation raws)))))"
    by (rule get_fdr_value_Inr)
  let ?col = "set_fdr_column (base_rows df) (map fdr_score (zscore_normalisation raws))"
  have "mset (map (\<lambda>r. (team r, ratings r)) (base_rows df')) =
        mset (map (\<lambda>r. (team r, map round2 (ratings r))) ?col)"
    unfolding df' base_rows_Scored[where g=Pair]
    by (simp add: sort_values_desc_def round_row_def o_def)
  also have "map (\<lambda>r. (team r, map round2 (ratings r))) ?col =
             map (\<lambda>r. (team r, map round2 (ratings r))) (base_rows df)"
    using len by (intro map_set_fdr_column[where g="\<lambda>t xs. (t, map round2 xs)"]) simp
  finally show ?thesis .
qed

lemma get_fdr_value_teams:
  assumes "get_fdr_value gw wc fh df = Inr df'"
  shows "set (map team (base_rows df')) = set (map team (base_rows df))"
proof -
  have "set (map fst (map (\<lambda>r. (team r, ratings r)) (base_rows df'))) =
        set (map fst (map (\<lambda>r. (team r, map round2 (ratings r))) (base_rows df)))"
    using mset_eq_setD[OF get_fdr_value_frame[OF assms]] by (simp only: set_map)
  then show ?thesis by (simp add: o_def)
qed

lemma raw_fdr_empty_window: "wc \<le> gw \<Longrightarrow> wc \<noteq> 0 \<Longrightarrow> raw_fdr gw wc fh row = Inr 0"
  by (simp add: raw_fdr_def py_range_def)

lemma get_fdr_value_empty_window:
  assumes "wc_gw \<noteq> 0" "wc_gw \<le> gw"
  shows "get_fdr_value gw wc_gw fh_gw df =
         Inr (Scored (map (\<lambda>r. \<lparr>team = team r, ratings = map round2 (ratings r),
                                  fdr_value = NaN\<rparr>) (base_rows df)))"
proof -
  have raw: "each_row (\<lambda>r. raw_fdr gw wc_gw fh_gw (ratings r)) (base_rows df) =
             Inr (map (\<lambda>r. 0) (base_rows df))"
    using assms by (intro each_row_map) (simp add: raw_fdr_empty_window)
  have col: "set_fdr_column (base_rows df)
                (map fdr_score (zscore_normalisation (map (\<lambda>r. 0) (base_rows df)))) =
             map (\<lambda>r. \<lparr>team = team r, ratings = ratings r, fdr_value = NaN\<rparr>) (base_rows df)"
    by (simp add: zscore_const fdr_score_def np_map_def o_def
        set_fdr_column_map[where g="\<lambda>r. NaN"])
  have srt: "sort_values_desc fdr_value
               (map (\<lambda>r. \<lparr>team = team r, ratings = ratings r, fdr_value = NaN\<rparr>) (base_rows df)) =
             map (\<lambda>r. \<lparr>team = team r, ratings = ratings r, fdr_value = NaN\<rparr>) (base_rows df)"
    by (rule sort_values_desc_const) auto
  show ?thesis
    unfolding get_fdr_value_def raw
    by (simp add: col srt round_row_def np_round2_def np_map_def o_def)
qed

subsection \<open>The lookup\<close>

lemma lookup_absent:
  assumes "t \<notin> set (map team (base_rows df))"
  shows "get_fdr_value_by_team df t = Inl KeyError \<or> get_fdr_value_by_team df t = Inl IndexError"
proof (cases df)
  case (Unscored rs)
  then show ?thesis by (simp add: get_fdr_value_by_team_def)
next
  case (Scored rs)
  then have "filter (\<lambda>r. team r = t) rs = []"
    using assms by (auto simp: base_rows_def filter_empty_conv)
  then show ?thesis using Scored by (simp add: get_fdr_value_by_team_def)
qed

lemma lookup_present:
  assumes "t \<in> set (map team rows)"
  shows "\<exists>r. List.find (\<lambda>r. team r = t) rows = Some r \<and>
             get_fdr_value_by_team (Scored rows) t = Inr (fdr_value r)"
  using assms
proof (induction rows)
  case Nil
  then show ?case by simp
next
  case (Cons a rows)
  then show ?case by (cases "team a = t") (auto simp: get_fdr_value_by_team_def)
qed

subsection \<open>Evaluating the examples\<close>

lemma raw_fdr_gw1:
  "raw_fdr 1 0 0 [x1, x2, x3, x4, x5, x6, x7, x8, x9, x10] =
   Inr (x1 * ln 7 + x2 * ln 6 + x3 * ln 5 + x4 * ln 4 + x5 * ln 3 + x6 * ln 2
        + x7 * (11 / 50) + x8 * (9 / 50) + x9 * (7 / 50) + x10 * (1 / 10))"
  by (simp add: raw_fdr_def py_range_def in_range_def py_index_def math_log_def upto_from_1)

lemma example_fixtures_eval: "get_fdr_value 1 0 0 example_fixtures = Inr example_scored"
proof -
  have "zscore_normalisation
          [3 * ln 7 + 3 * ln 6 + 3 * ln 5 + 3 * ln 4 + 3 * ln 3 + 3 * ln 2
             + 3 * (11 / 50) + 3 * (9 / 50) + 3 * (7 / 50) + 3 * (1 / 10),
           1 * ln 7 + 1 * ln 6 + 1 * ln 5 + 1 * ln 4 + 1 * ln 3 + 1 * ln 2
             + 1 * (11 / 50) + 1 * (9 / 50) + 1 * (7 / 50) + 1 * (1 / 10)]
        = [Fin 1, Fin (- 1)]"
    by (rule zscore_pair_greater) (simp add: add_pos_pos)
  then show ?thesis
    unfolding example_fixtures_def example_scored_def get_fdr_value_def
    by (simp add: base_rows_def raw_fdr_gw1 fdr_score_def np_map_def
        set_fdr_column_def sort_values_desc_def desc_key_def round_row_def np_round2_def
        round2_cents[of 550, simplified] round2_cents[of 450, simplified])
qed

lemma fine_fixtures_eval: "get_fdr_value 1 0 0 fine_fixtures = Inr fine_scored"
proof -
  have "zscore_normalisation
          [3.001 * ln 7 + 3 * ln 6 + 3 * ln 5 + 3 * ln 4 + 3 * ln 3 + 3 * ln 2
             + 3 * (11 / 50) + 3 * (9 / 50) + 3 * (7 / 50) + 3 * (1 / 10),
           3.002 * ln 7 + 3 * ln 6 + 3 * ln 5 + 3 * ln 4 + 3 * ln 3 + 3 * ln 2
             + 3 * (11 / 50) + 3 * (9 / 50) + 3 * (7 / 50) + 3 * (1 / 10)]
        = [Fin (- 1), Fin 1]"
    by (rule zscore_pair_less) simp
  moreover have "round2 (3001 / 1000) = 3" "round2 (1501 / 500) = 3"
    by (simp_all add: round2_def rint_def)
  ultimately show ?thesis
    unfolding fine_fixtures_def fine_scored_def get_fdr_value_def
    by (simp add: base_rows_def raw_fdr_gw1 fdr_score_def np_map_def
        set_fdr_column_def sort_values_desc_def desc_key_def round_row_def np_round2_def
        round2_cents[of 550, simplified] round2_cents[of 450, simplified])
qed

subsection \<open>The raw score without a wildcard\<close>

lemma rating_at_column:
  "1 \<le> i \<Longrightarrow> i \<le> int (length row) \<Longrightarrow> rating_at row i = row ! nat (i - 1)"
  by (simp add: rating_at_def py_index_def)

lemma no_wc_loop_sum:
  "no_wc_loop gw fh row js acc = Inr v \<Longrightarrow> set js \<subseteq> {gw..gw + 9} \<Longrightarrow>
   v = acc + (\<Sum>i\<leftarrow>filter (\<lambda>i. i \<noteq> fh) js. rating_at row i * window_weight gw i)"
proof (induction js arbitrary: acc)
  case Nil
  then show ?case by simp
next
  case (Cons i js)
  from Cons.prems have sub: "set js \<subseteq> {gw..gw + 9}" and i: "gw \<le> i" "i \<le> gw + 9" by auto
  show ?case
  proof (cases "i = fh")
    case True
    then show ?thesis using Cons.IH[OF _ sub] Cons.prems(1) by simp
  next
    case False
    note nfh = this
    show ?thesis
    proof (cases "i < gw + 6")
      case True
      then obtain d w where d: "py_index row (i - 1) = Inr d" and w: "math_log (- i + 8) = Inr w"
        and rest: "no_wc_loop gw fh row js (acc + d * w) = Inr v"
        using Cons.prems(1) nfh i by (auto simp: in_range_def split: sum.splits)
      have "w = window_weight gw i" using w True i
        by (auto simp: math_log_def window_weight_def split: if_splits)
      moreover have "d = rating_at row i" using d by (simp add: rating_at_def)
      ultimately show ?thesis using Cons.IH[OF rest sub] nfh by simp
    next
      case False
      then obtain d where d: "py_index row (i - 1) = Inr d"
        and rest: "no_wc_loop gw fh row js (acc + d * (- (real_of_int i / 25) + 0.5)) = Inr v"
        using Cons.prems(1) nfh i by (auto simp: in_range_def split: sum.splits)
      have "- (real_of_int i / 25) + 0.5 = window_weight gw i" using False
        by (simp add: window_weight_def)
      moreover have "d = rating_at row i" using d by (simp add: rating_at_def)
      ultimately show ?thesis using Cons.IH[OF rest sub] nfh by simp
    qed
  qed
qed

lemma raw_fdr_no_wc:
  assumes "raw_fdr gw 0 fh row = Inr v"
  shows "v = window_sum gw fh row"
proof -
  have "gw + 10 - 1 = gw + 9" by simp
  moreover have "no_wc_loop gw fh row [gw..gw + 10 - 1] 0 = Inr v"
    using assms by (simp only: raw_fdr_def py_range_def refl if_True)
  ultimately have "no_wc_loop gw fh row [gw..gw + 9] 0 = Inr v"
    by (simp only:)
  from no_wc_loop_sum[OF this] show ?thesis
    by (simp add: window_sum_def)
qed

lemma each_row_values:
  assumes "each_row f rs = Inr vs" and "\<And>r v. r \<in> set rs \<Longrightarrow> f r = Inr v \<Longrightarrow> v = g r"
  shows "vs = map g rs"
  using assms
proof (induction rs arbitrary: vs)
  case Nil
  then show ?case by simp
next
  case (Cons r rs)
  then show ?case by (auto split: sum.splits)
qed

lemma zscore_normalisation_map: "zscore_normalisation raws = map (zscore_of raws) raws"
  by (simp add: zscore_normalisation_def zscore_of_def Let_def)

lemma get_fdr_value_no_wc:
  assumes "get_fdr_value gw 0 fh df = Inr df'"
  shows "df' = Scored (map round_row (sort_values_desc fdr_value
           (map (\<lambda>r. \<lparr>team = team r, ratings = ratings r,
                       fdr_value = fdr_score (zscore_of
                          (map (\<lambda>r. window_sum gw fh (ratings r)) (base_rows df))
                          (window_sum gw fh (ratings r)))\<rparr>)
                (base_rows df))))"
proof -
  from assms obtain raws where
    raws: "each_row (\<lambda>r. raw_fdr gw 0 fh (ratings r)) (base_rows df) = Inr raws"
    and df': "df' = Scored (map round_row (sort_values_desc fdr_value
             (set_fdr_column (base_rows df) (map fdr_score (zscore_normalisation raws)))))"
    by (rule get_fdr_value_Inr)
  have eq: "raws = map (\<lambda>r. window_sum gw fh (ratings r)) (base_rows df)"
    using raws by (rule each_row_values) (rule raw_fdr_no_wc)
  have "map fdr_score (map (zscore_of X) raws) =
        map (\<lambda>r. fdr_score (zscore_of X (window_sum gw fh (ratings r)))) (base_rows df)" for X
    by (simp add: eq o_def)
  then have "set_fdr_column (base_rows df) (map fdr_score (zscore_normalisation raws)) =
        map (\<lambda>r. \<lparr>team = team r, ratings = ratings r,
                   fdr_value = fdr_score (zscore_of raws (window_sum gw fh (ratings r)))\<rparr>)
            (base_rows df)"
    unfolding zscore_normalisation_map by (simp only: set_fdr_column_map)
  then show ?thesis unfolding df' eq by simp
qed

lemma mset_map_sort_values_desc: "mset (map f (sort_values_desc col xs)) = mset (map f xs)"
  by (simp add: sort_values_desc_def)

lemma mset_scores:
  "mset (map (\<lambda>r. (team r, fdr_value r)) (map round_row (sort_values_desc fdr_value
     (map (\<lambda>r. \<lparr>team = team r, ratings = ratings r, fdr_value = g r\<rparr>) rows)))) =
   mset (map (\<lambda>r. (team r, np_round2 (g r))) rows)"
proof -
  have "map ((\<lambda>r. (team r, fdr_value r)) \<circ> round_row)
          (map (\<lambda>r. \<lparr>team = team r, ratings = ratings r, fdr_value = g r\<rparr>) rows) =
        map (\<lambda>r. (team r, np_round2 (g r))) rows"
    by (simp add: round_row_def)
  then show ?thesis
    by (simp only: map_map mset_map_sort_values_desc)
qed

lemma raw_late:
  assumes "8 \<le> gw" "gw + 9 \<le> int (length row)"
  shows "raw_fdr gw 0 fh row = Inl MathDomainError"
proof -
  have r: "py_range g (g + 10) = g # (g + 1) # [g + 2..g + 9]" for g
    by (simp add: py_range_def upto_rec1)
  show ?thesis
  proof (cases "gw = fh")
    case True
    then show ?thesis using assms
      by (simp add: raw_fdr_def r in_range_def py_index_def math_log_def)
  next
    case False
    then show ?thesis using assms
      by (simp add: raw_fdr_def r in_range_def py_index_def math_log_def)
  qed
qed

subsection \<open>More examples\<close>

lemma zscore_spread:
  assumes "0 < w"
  shows "zscore_normalisation [c + 5 * w, c + 1 * w, c + 2 * w, c + 2 * w] =
         [Fin (5 / 3), Fin (- 1), Fin (- 1 / 3), Fin (- 1 / 3)]"
proof -
  let ?xs = "[c + 5 * w, c + 1 * w, c + 2 * w, c + 2 * w]"
  have mu: "np_mean ?xs = c + 5 / 2 * w" by (simp add: np_mean_def)
  have "np_mean (map (\<lambda>x. (x - (c + 5 / 2 * w))\<^sup>2) ?xs) = (3 / 2 * w)\<^sup>2"
    by (simp add: np_mean_def power2_eq_square field_simps)
  then have sd: "np_std ?xs = 3 / 2 * w"
    using assms unfolding np_std_def mu by simp
  show ?thesis using assms
    unfolding zscore_normalisation_def mu sd Let_def
    by (simp add: np_div_def field_simps)
qed

lemma window_sum_gw1:
  "window_sum 1 0 [x1, x2, x3, x4, x5, x6, x7, x8, x9, x10] =
   x1 * ln 7 + x2 * ln 6 + x3 * ln 5 + x4 * ln 4 + x5 * ln 3 + x6 * ln 2
        + x7 * (11 / 50) + x8 * (9 / 50) + x9 * (7 / 50) + x10 * (1 / 10)"
  by (simp add: window_sum_def rating_at_def window_weight_def py_index_def upto_from_1)

lemma get_fdr_value_eval:
  assumes "each_row (\<lambda>r. raw_fdr gw wc fh (ratings r)) (base_rows df) = Inr raws"
    and "map fdr_score (zscore_normalisation raws) = scores"
  shows "get_fdr_value gw wc fh df =
         Inr (Scored (map round_row (sort_values_desc fdr_value
                (set_fdr_column (base_rows df) scores))))"
  using assms by (simp add: get_fdr_value_def)

lemma round2_spread: "round2 (25 / 6) = 417 / 100" "round2 (31 / 6) = 517 / 100"
   "round2 (11 / 2) = 11 / 2"
  by (simp_all add: round2_def rint_def)

lemma spread_scores:
  obtains raws where
    "each_row (\<lambda>r. raw_fdr 1 0 0 (ratings r)) (base_rows spread_fixtures) = Inr raws"
    "map (\<lambda>r. window_sum 1 0 (ratings r)) (base_rows spread_fixtures) = raws"
    "map fdr_score (zscore_normalisation raws) =
       [Fin (25 / 6), Fin (11 / 2), Fin (31 / 6), Fin (31 / 6)]"
proof -
  define c :: real where "c = 3 * ln 7 + 3 * ln 6 + 3 * ln 5 + 3 * ln 4 + 3 * ln 3 + 3 * ln 2
             + 3 * (9 / 50) + 3 * (7 / 50) + 3 * (1 / 10)"
  define w :: real where "w = 11 / 50"
  have w: "0 < w" by (simp add: w_def)
  have a: "each_row (\<lambda>r. raw_fdr 1 0 0 (ratings r)) (base_rows spread_fixtures) =
        Inr [c + 5 * w, c + 1 * w, c + 2 * w, c + 2 * w]"
    unfolding c_def w_def spread_fixtures_def by (simp add: base_rows_def raw_fdr_gw1)
  have b: "map (\<lambda>r. window_sum 1 0 (ratings r)) (base_rows spread_fixtures) =
        [c + 5 * w, c + 1 * w, c + 2 * w, c + 2 * w]"
    unfolding c_def w_def spread_fixtures_def by (simp add: base_rows_def window_sum_gw1)
  have "map fdr_score (zscore_normalisation [c + 5 * w, c + 1 * w, c + 2 * w, c + 2 * w]) =
        [Fin (25 / 6), Fin (11 / 2), Fin (31 / 6), Fin (31 / 6)]"
    unfolding zscore_spread[OF w] by (simp add: fdr_score_def np_map_def)
  from that[OF a b this] show ?thesis .
qed

lemma spread_fixtures_eval: "get_fdr_value 1 0 0 spread_fixtures = Inr spread_scored"
proof -
  obtain raws where
    "each_row (\<lambda>r. raw_fdr 1 0 0 (ratings r)) (base_rows spread_fixtures) = Inr raws"
    "map fdr_score (zscore_normalisation raws) =
       [Fin (25 / 6), Fin (11 / 2), Fin (31 / 6), Fin (31 / 6)]"
    by (rule spread_scores)
  from get_fdr_value_eval[OF this] show ?thesis
    by (simp add: spread_fixtures_def spread_scored_def base_rows_def set_fdr_column_def
        sort_values_desc_def desc_key_def round_row_def np_round2_def np_map_def round2_spread)
qed

lemma spread_unrounded:
  "map fdr_score (zscore_normalisation
      (map (\<lambda>r. window_sum 1 0 (ratings r)) (base_rows spread_fixtures))) =
   [Fin (25 / 6), Fin (11 / 2), Fin (31 / 6), Fin (31 / 6)]"
proof -
  obtain raws where
    "map (\<lambda>r. window_sum 1 0 (ratings r)) (base_rows spread_fixtures) = raws"
    "map fdr_score (zscore_normalisation raws) =
       [Fin (25 / 6), Fin (11 / 2), Fin (31 / 6), Fin (31 / 6)]"
    by (rule spread_scores)
  then show ?thesis by simp
qed

lemma gw0_eval: "get_fdr_value 0 0 0 example_fixtures = Inr example_scored"
proof -
  define c :: real where "c = ln 7 + ln 6 + ln 5 + ln 4 + ln 3 + 13 / 50 + 11 / 50 + 9 / 50 + 7 / 50"
  have c: "c < 3 * c" by (simp add: c_def add_pos_pos)
  have "each_row (\<lambda>r. raw_fdr 0 0 0 (ratings r)) (base_rows example_fixtures) = Inr [3 * c, c]"
    unfolding c_def example_fixtures_def
    by (simp add: base_rows_def raw_fdr_def py_range_def in_range_def py_index_def math_log_def upto_rec1)
  moreover have "map fdr_score (zscore_normalisation [3 * c, c]) = [Fin (9 / 2), Fin (11 / 2)]"
    unfolding zscore_pair_greater[OF c] by (simp add: fdr_score_def np_map_def)
  ultimately have "get_fdr_value 0 0 0 example_fixtures =
      Inr (Scored (map round_row (sort_values_desc fdr_value
                (set_fdr_column (base_rows example_fixtures) [Fin (9 / 2), Fin (11 / 2)]))))"
    by (rule get_fdr_value_eval)
  then show ?thesis
    by (simp add: example_fixtures_def example_scored_def base_rows_def set_fdr_column_def
        sort_values_desc_def desc_key_def round_row_def np_round2_def np_map_def
        round2_cents[of 550, simplified] round2_cents[of 450, simplified])
qed

lemma gameweek_three_raises: "get_fdr_value 3 0 0 late_fixtures = Inl MathDomainError"
  by (simp add: late_fixtures_def get_fdr_value_def base_rows_def raw_fdr_def py_range_def
      in_range_def py_index_def math_log_def)

lemma late_eval: "get_fdr_value 8 0 0 late_fixtures = Inl MathDomainError"
  by (simp add: late_fixtures_def get_fdr_value_def base_rows_def raw_fdr_def py_range_def
      in_range_def py_index_def math_log_def)

subsection \<open>Running \<open>get_fdr_value\<close> again\<close>

lemma insort_key_map: "insort_key f (g x) (map g xs) = map g (insort_key (\<lambda>y. f (g y)) x xs)"
  by (induction xs) auto

lemma sort_key_map: "sort_key f (map g xs) = map g (sort_key (\<lambda>y. f (g y)) xs)"
  by (induction xs) (auto simp: insort_key_map)

lemma sort_key_twice: "sort_key f (sort_key f xs) = sort_key f xs"
  by (rule sort_key_id_if_sorted) simp

lemma sort_values_desc_map:
  "sort_values_desc col (map g xs) = map g (sort_values_desc (\<lambda>r. col (g r)) xs)"
  by (simp add: sort_values_desc_def sort_key_map)

lemma sort_values_desc_twice:
  "sort_values_desc col (sort_values_desc col xs) = sort_values_desc col xs"
  by (simp add: sort_values_desc_def sort_key_twice)

lemma np_mean_perm:
  assumes "mset xs = mset ys"
  shows "np_mean xs = np_mean ys"
proof -
  have "sum_mset (mset xs) = sum_mset (mset ys)" using assms by simp
  then have "sum_list xs = sum_list ys" by (simp only: sum_mset_sum_list)
  moreover have "length xs = length ys" using assms by (rule mset_eq_length)
  ultimately show ?thesis by (simp add: np_mean_def)
qed

lemma np_std_perm:
  assumes "mset xs = mset ys"
  shows "np_std xs = np_std ys"
proof -
  have "mset (map (\<lambda>x. (x - np_mean xs)\<^sup>2) xs) = mset (map (\<lambda>x. (x - np_mean xs)\<^sup>2) ys)"
    using assms by simp
  then have "np_mean (map (\<lambda>x. (x - np_mean xs)\<^sup>2) xs) =
             np_mean (map (\<lambda>x. (x - np_mean xs)\<^sup>2) ys)"
    by (rule np_mean_perm)
  then show ?thesis
    unfolding np_std_def np_mean_perm[OF assms] by simp
qed

lemma zscore_of_perm:
  assumes "mset xs = mset ys"
  shows "zscore_of xs = zscore_of ys"
  unfolding zscore_of_def np_mean_perm[OF assms] np_std_perm[OF assms] ..

lemma each_row_raw:
  assumes "each_row (\<lambda>r. raw_fdr gw wc fh (ratings r)) rows = Inr raws"
  shows "raws = map (raw_of gw wc fh) rows"
  using assms by (rule each_row_values) (simp add: raw_of_def)

lemma each_row_raw_ok:
  assumes "each_row (\<lambda>r. raw_fdr gw wc fh (ratings r)) rows = Inr raws" "r \<in> set rows"
  shows "raw_fdr gw wc fh (ratings r) = Inr (raw_of gw wc fh r)"
proof -
  from assms(1) have "map (\<lambda>r. raw_fdr gw wc fh (ratings r)) rows = map Inr raws"
    by (simp add: each_row_Inr_iff)
  also have "\<dots> = map (\<lambda>r. Inr (raw_of gw wc fh r)) rows"
    unfolding each_row_raw[OF assms(1)] by simp
  finally show ?thesis using assms(2) by (simp only: map_eq_conv)
qed

lemma get_fdr_value_scores:
  assumes "get_fdr_value gw wc fh df = Inr df'"
  shows "df' = Scored (map round_row (map (with_score (score_of gw wc fh (base_rows df)))
                 (sort_values_desc (score_of gw wc fh (base_rows df)) (base_rows df))))"
    and "\<And>r. r \<in> set (base_rows df) \<Longrightarrow> raw_fdr gw wc fh (ratings r) = Inr (raw_of gw wc fh r)"
proof -
  from assms obtain raws where
    raws: "each_row (\<lambda>r. raw_fdr gw wc fh (ratings r)) (base_rows df) = Inr raws"
    and df': "df' = Scored (map round_row (sort_values_desc fdr_value
             (set_fdr_column (base_rows df) (map fdr_score (zscore_normalisation raws)))))"
    by (rule get_fdr_value_Inr)
  have eq: "raws = map (raw_of gw wc fh) (base_rows df)"
    using raws by (rule each_row_raw)
  have "map fdr_score (zscore_normalisation raws) =
        map (score_of gw wc fh (base_rows df)) (base_rows df)"
    unfolding zscore_normalisation_map eq by (simp add: score_of_def)
  then have "set_fdr_column (base_rows df) (map fdr_score (zscore_normalisation raws)) =
        map (with_score (score_of gw wc fh (base_rows df))) (base_rows df)"
    by (simp add: set_fdr_column_map with_score_def)
  then show "df' = Scored (map round_row (map (with_score (score_of gw wc fh (base_rows df)))
                 (sort_values_desc (score_of gw wc fh (base_rows df)) (base_rows df))))"
    unfolding df' by (simp add: sort_values_desc_map with_score_def)
  show "\<And>r. r \<in> set (base_rows df) \<Longrightarrow> raw_fdr gw wc fh (ratings r) = Inr (raw_of gw wc fh r)"
    using raws by (rule each_row_raw_ok)
qed

lemma base_round_with_score:
  assumes "list_all two_decimals (ratings r)"
  shows "\<lparr>team = team (round_row (with_score g r)), ratings = ratings (round_row (with_score g r))\<rparr> = (r::fixture_row)"
proof -
  have "map round2 (ratings r) = ratings r"
    using assms by (auto simp: list_all_iff two_decimals_def intro: map_idI)
  then show ?thesis by (simp add: round_row_def with_score_def)
qed

lemma base_rows_rounded:
  assumes "list_all (\<lambda>r. list_all two_decimals (ratings r)) rows"
  shows "base_rows (Scored (map round_row (map (with_score g) rows))) = rows"
proof -
  have "map (\<lambda>r. \<lparr>team = team (round_row (with_score g r)),
                   ratings = ratings (round_row (with_score g r))\<rparr>) rows = map (\<lambda>r. r) rows"
    using assms by (intro map_cong refl base_round_with_score) (simp add: list_all_iff)
  then show ?thesis by (simp add: base_rows_def o_def)
qed

lemma score_of_perm:
  assumes "mset rows' = mset rows"
  shows "score_of gw wc fh rows' = score_of gw wc fh rows"
proof -
  have "mset (map (raw_of gw wc fh) rows') = mset (map (raw_of gw wc fh) rows)"
    using assms by simp
  from zscore_of_perm[OF this] show ?thesis
    by (simp add: score_of_def fun_eq_iff)
qed

lemma get_fdr_value_idem:
  assumes H: "rounded_ratings df" and run: "get_fdr_value gw wc fh df = Inr df'"
  shows "get_fdr_value gw wc fh df' = Inr df'" "rounded_ratings df'"
proof -
  let ?rows = "base_rows df"
  let ?sc = "score_of gw wc fh ?rows"
  let ?rows' = "sort_values_desc ?sc ?rows"
  have df': "df' = Scored (map round_row (map (with_score ?sc) ?rows'))"
    and ok: "\<And>r. r \<in> set ?rows \<Longrightarrow> raw_fdr gw wc fh (ratings r) = Inr (raw_of gw wc fh r)"
    by (rule get_fdr_value_scores[OF run])+
  have set': "set ?rows' = set ?rows" by (simp add: sort_values_desc_def)
  have mset': "mset ?rows' = mset ?rows" by (simp add: sort_values_desc_def)
  have H': "list_all (\<lambda>r. list_all two_decimals (ratings r)) ?rows'"
    using H by (simp add: rounded_ratings_def list_all_iff set')
  have base: "base_rows df' = ?rows'"
    unfolding df' using H' by (rule base_rows_rounded)
  show "rounded_ratings df'" using H' by (simp add: rounded_ratings_def base)
  have raws: "each_row (\<lambda>r. raw_fdr gw wc fh (ratings r)) ?rows' = Inr (map (raw_of gw wc fh) ?rows')"
    by (rule each_row_map) (simp add: ok set')
  have sc: "score_of gw wc fh ?rows' = ?sc" using mset' by (rule score_of_perm)
  have "map fdr_score (zscore_normalisation (map (raw_of gw wc fh) ?rows')) = map ?sc ?rows'"
    unfolding zscore_normalisation_map by (simp add: score_of_def[symmetric] sc o_def)
  then have col: "set_fdr_column ?rows' (map fdr_score (zscore_normalisation (map (raw_of gw wc fh) ?rows')))
        = map (with_score ?sc) ?rows'"
    by (simp add: set_fdr_column_map with_score_def)
  have "sort_values_desc fdr_value (map (with_score ?sc) ?rows') = map (with_score ?sc) (sort_values_desc ?sc ?rows')"
    by (simp add: sort_values_desc_map with_score_def)
  also have "\<dots> = map (with_score ?sc) ?rows'" by (simp only: sort_values_desc_twice)
  finally have srt: "sort_values_desc fdr_value (map (with_score ?sc) ?rows') = map (with_score ?sc) ?rows'" .
  show "get_fdr_value gw wc fh df' = Inr df'"
    unfolding get_fdr_value_def base raws by (simp add: col srt df')
qed

section \<open>Lemmas on the predictor and the composite value\<close>

lemma train_model_keeps_trained: "is_trained m \<Longrightarrow> is_trained (snd (train_model sk m))"
  by (simp add: train_model_def Let_def split: sum.splits)

lemma predict_trained: "is_trained m \<Longrightarrow> snd (predict sk m x) = m"
  by (simp add: predict_def split: option.splits)

lemma predict_untrained: "\<not> is_trained m \<Longrightarrow> snd (predict sk m x) = snd (train_model sk m)"
  by (simp add: predict_def split: option.splits prod.splits)

lemma cs_step_keeps_trained: "is_trained m \<Longrightarrow> is_trained (cs_step sk m c)"
  by (cases c) (simp_all add: train_model_keeps_trained predict_trained)

lemma cs_run_keeps_trained: "is_trained m \<Longrightarrow> is_trained (cs_run sk m ops)"
  unfolding cs_run_def
  by (induction ops arbitrary: m) (simp_all add: cs_step_keeps_trained)

lemma cs_run_predicts: "is_trained m \<Longrightarrow> cs_run sk m (map Predict xs) = m"
  unfolding cs_run_def
  by (induction xs) (simp_all add: predict_trained)

lemma predict_first:
  assumes "\<not> is_trained m" and "predict sk m x = (Inr y, m')"
  shows "train_model sk m = (None, m') \<and> is_trained m' \<and> fit_calls m' = fit_calls m + 1
       \<and> (\<exists>sc p. scaler m' = Some sc \<and> sgdr m' = Some p
                 \<and> y = sgd_predict sk p (scaler_transform sk sc x))"
proof -
  obtain err m1 where tm: "train_model sk m = (err, m1)" by (cases "train_model sk m")
  with assms have err: "err = None" and m1: "m1 = m'"
    by (auto simp: predict_def split: option.splits)
  from tm err have tr: "is_trained m1 \<and> fit_calls m1 = fit_calls m + 1"
    by (auto simp: train_model_def Let_def split: sum.splits)
  from assms tm err m1 have "\<exists>sc p. scaler m' = Some sc \<and> sgdr m' = Some p
                 \<and> y = sgd_predict sk p (scaler_transform sk sc x)"
    by (auto simp: predict_def split: option.splits)
  with tm err m1 tr show ?thesis by simp
qed

lemma toy_predict: "predict toy_sklearn toy_model 1 = (Inr 4, toy_trained)"
  by (simp add: predict_def train_model_def toy_sklearn_def toy_model_def toy_trained_def
      cs_init_def np_mean_def Let_def)

lemma composite_decreasing:
  fixes p1 p2 xpts f :: real
  assumes "0 < p1" "p1 < p2" "0 < 12 * xpts + 8 * f"
  shows "(12 * xpts + 8 * f) / p2 powr 0.25 < (12 * xpts + 8 * f) / p1 powr 0.25"
proof -
  have "p1 powr 0.25 < p2 powr 0.25"
    using assms by (intro powr_less_mono2) simp_all
  moreover have "0 < p1 powr 0.25" "0 < p2 powr 0.25" using assms by simp_all
  ultimately show ?thesis using assms(3)
    by (intro divide_strict_left_mono mult_pos_pos)
qed

lemma sixteen_powr: "(16::real) powr 0.25 = 2"
proof -
  have "(16::real) = 2 powr 4" by simp
  then have "(16::real) powr 0.25 = (2 powr 4) powr 0.25" by simp
  also have "\<dots> = 2 powr (4 * 0.25)" by (rule powr_powr)
  finally show ?thesis by simp
qed

section \<open>Lemmas on \<open>defcon_term\<close>\<close>

lemma xpts_def_defcon:
  "xpts_def cs_pts row =
   2 + xGp90 row * 6 + xAp90 row * 3 + cs_pts + bps row + defender_defcon (defcon row) - yc row"
  by (simp add: xpts_def_def defender_defcon_def defcon_term_def)

lemma xpts_mid_defcon:
  "xpts_mid cs_pts row =
   2 + xGp90 row * 5 + xAp90 row * 3 + cs_pts + bps row + midfielder_defcon (defcon row) - yc row"
  by (simp add: xpts_mid_def midfielder_defcon_def defcon_term_def)

lemma xpts_fwd_defcon:
  "xpts_fwd row =
   2 + xGp90 row * 4 + xAp90 row * 3 + bps row + midfielder_defcon (defcon row) - yc row"
  by (simp add: xpts_fwd_def midfielder_defcon_def defcon_term_def)

lemma fifth_root_of_power: "0 < a \<Longrightarrow> (a ^ 5) powr (1 / 5) = (a::real)"
proof -
  assume a: "0 < a"
  have "a powr 5 = a ^ 5" using a by simp
  then have "(a ^ 5) powr (1 / 5) = (a powr 5) powr (1 / 5)" by (simp only:)
  also have "\<dots> = a powr (5 * (1 / 5))" by (rule powr_powr)
  also have "\<dots> = a" using a by simp
  finally show ?thesis .
qed

lemma fifth_root_bounds:
  fixes a b x :: real
  assumes "0 < a" "a ^ 5 < x" "x < b ^ 5" "0 < b"
  shows "a < x powr (1 / 5)" "x powr (1 / 5) < b"
proof -
  have "(a ^ 5) powr (1 / 5) < x powr (1 / 5)"
    using assms by (intro powr_less_mono2) simp_all
  then show "a < x powr (1 / 5)" using assms by (simp add: fifth_root_of_power)
  have "0 < a ^ 5" using assms by simp
  then have "0 < x" using assms by linarith
  then have "x powr (1 / 5) < (b ^ 5) powr (1 / 5)"
    using assms by (intro powr_less_mono2) simp_all
  then show "x powr (1 / 5) < b" using assms by (simp add: fifth_root_of_power)
qed

lemma powr_six_fifths: "0 < x \<Longrightarrow> x powr 1.2 = x * x powr (1 / 5)" for x :: real
proof -
  assume "0 < x"
  have "x powr 1.2 = x powr (1 + 1 / 5)" by simp
  also have "\<dots> = x powr 1 * x powr (1 / 5)" by (rule powr_add)
  finally show ?thesis using \<open>0 < x\<close> by simp
qed

lemma defender_cap: "2 < defender_defcon 13.33" "defender_defcon 13.33 < 2.0002"
proof -
  have p: "(1.528::real) ^ 5 < 8.33" "8.33 < (1.5281::real) ^ 5"
    by (simp_all add: power_divide)
  have b: "1.528 < (8.33::real) powr (1 / 5)" "(8.33::real) powr (1 / 5) < 1.5281"
    using fifth_root_bounds[OF _ p] by simp_all
  have v: "defender_defcon 13.33 = 8.33 * 8.33 powr (1 / 5) / 6.38 + 0.005"
    using powr_six_fifths[of "8.33"] by (simp add: defender_defcon_def defcon_term_def)
  show "2 < defender_defcon 13.33" unfolding v using b(1) by simp
  show "defender_defcon 13.33 < 2.0002" unfolding v using b(2) by simp
qed

lemma midfielder_cap: "1.987 < midfielder_defcon 16" "midfielder_defcon 16 < 1.9872"
proof -
  have p: "(1.5848::real) ^ 5 < 10" "10 < (1.5849::real) ^ 5"
    by (simp_all add: power_divide)
  have b: "1.5848 < (10::real) powr (1 / 5)" "(10::real) powr (1 / 5) < 1.5849"
    using fifth_root_bounds[OF _ p] by simp_all
  have v: "midfielder_defcon 16 = 10 * 10 powr (1 / 5) / 8 + 0.006"
    using powr_six_fifths[of "10"] by (simp add: midfielder_defcon_def defcon_term_def)
  show "1.987 < midfielder_defcon 16" unfolding v using b(1) by simp
  show "midfielder_defcon 16 < 1.9872" unfolding v using b(2) by simp
qed

lemma isCont_local_bound:
  fixes f :: "real \<Rightarrow> real"
  assumes "\<And>x. \<bar>x - a\<bar> \<le> 1 \<Longrightarrow> \<bar>f x - f a\<bar> \<le> \<bar>x - a\<bar>"
  shows "isCont f a"
  unfolding isCont_def
proof (rule LIM_I)
  fix r :: real
  assume r: "0 < r"
  show "\<exists>s>0. \<forall>x. x \<noteq> a \<and> norm (x - a) < s \<longrightarrow> norm (f x - f a) < r"
  proof (intro exI[of _ "min r 1"] conjI allI impI)
    show "0 < min r 1" using r by simp
    fix x
    assume "x \<noteq> a \<and> norm (x - a) < min r 1"
    then have "\<bar>x - a\<bar> < r" "\<bar>x - a\<bar> \<le> 1" by simp_all
    with assms[of x] show "norm (f x - f a) < r" by simp
  qed
qed

lemma powr_le_self: "0 \<le> t \<Longrightarrow> t \<le> 1 \<Longrightarrow> t powr 1.2 \<le> (t::real)"
  using powr_mono'[of 1 "1.2" t] by (cases "t = 0") simp_all

lemma defender_low_bound:
  assumes "\<bar>d - 5\<bar> \<le> 1"
  shows "\<bar>defender_defcon d - defender_defcon 5\<bar> \<le> \<bar>d - 5\<bar>"
proof (cases "d < 5")
  case True
  then show ?thesis by (simp add: defender_defcon_def defcon_term_def)
next
  case False
  then have d: "0 \<le> d - 5" "d - 5 \<le> 1" using assms by simp_all
  from powr_le_self[OF d] have "(d - 5) powr 1.2 / 6.38 \<le> d - 5"
    using d(1) by (simp add: field_simps) 
  moreover have "0 \<le> (d - 5) powr 1.2 / 6.38" by simp
  ultimately show ?thesis using False d
    by (simp add: defender_defcon_def defcon_term_def)
qed

lemma midfielder_low_bound:
  assumes "\<bar>d - 6\<bar> \<le> 1"
  shows "\<bar>midfielder_defcon d - midfielder_defcon 6\<bar> \<le> \<bar>d - 6\<bar>"
proof (cases "d < 6")
  case True
  then show ?thesis by (simp add: midfielder_defcon_def defcon_term_def)
next
  case False
  then have d: "0 \<le> d - 6" "d - 6 \<le> 1" using assms by simp_all
  from powr_le_self[OF d] have "(d - 6) powr 1.2 / 8 \<le> d - 6"
    using d(1) by (simp add: field_simps)
  moreover have "0 \<le> (d - 6) powr 1.2 / 8" by simp
  ultimately show ?thesis using False d
    by (simp add: midfielder_defcon_def defcon_term_def)
qed

lemma defcon_term_mono_below_cap:
  assumes "d1 \<le> d2" "d2 \<le> mid_hi" "0 \<le> k" "0 < scale" "low / 1000 \<le> offset"
  shows "defcon_term d1 low mid_hi k scale offset \<le> defcon_term d2 low mid_hi k scale offset"
proof (cases "d2 < low")
  case True
  then show ?thesis using assms by (simp add: defcon_term_def)
next
  case False
  note d2 = this
  show ?thesis
  proof (cases "d1 < low")
    case True
    have "0 \<le> (d2 - low) powr k / scale" using assms by simp
    moreover have "d1 / 1000 \<le> low / 1000" using True by simp
    ultimately have "d1 / 1000 \<le> (d2 - low) powr k / scale + offset"
      using assms(5) by linarith
    then show ?thesis using True d2 assms(2) by (simp only: defcon_term_def) simp
  next
    case False
    then have "(d1 - low) powr k \<le> (d2 - low) powr k"
      using assms by (intro powr_mono2) simp_all
    then have "(d1 - low) powr k / scale \<le> (d2 - low) powr k / scale"
      using assms by (simp add: divide_right_mono)
    then show ?thesis using False d2 assms by (simp add: defcon_term_def)
  qed
qed

lemma defender_mono_below_cap:
  "d1 \<le> d2 \<Longrightarrow> d2 \<le> 13.33 \<Longrightarrow> defender_defcon d1 \<le> defender_defcon d2"
  unfolding defender_defcon_def by (rule defcon_term_mono_below_cap) simp_all

lemma midfielder_mono_below_cap:
  "d1 \<le> d2 \<Longrightarrow> d2 \<le> 16 \<Longrightarrow> midfielder_defcon d1 \<le> midfielder_defcon d2"
  unfolding midfielder_defcon_def by (rule defcon_term_mono_below_cap) simp_all

lemma above_cap: "13.33 < d \<Longrightarrow> defender_defcon d = 2" "16 < d \<Longrightarrow> midfielder_defcon d = 2"
  by (simp_all add: defender_defcon_def midfielder_defcon_def defcon_term_def)

lemma midfielder_mono: "d1 \<le> d2 \<Longrightarrow> midfielder_defcon d1 \<le> midfielder_defcon d2"
proof (cases "d2 \<le> 16")
  case True
  assume "d1 \<le> d2"
  then show ?thesis using True by (rule midfielder_mono_below_cap)
next
  case False
  assume "d1 \<le> d2"
  show ?thesis
  proof (cases "d1 \<le> 16")
    case True
    then have "midfielder_defcon d1 \<le> midfielder_defcon 16"
      by (intro midfielder_mono_below_cap) simp_all
    then show ?thesis using False midfielder_cap(2) by (simp add: above_cap)
  next
    case False
    then show ?thesis using \<open>d1 \<le> d2\<close> by (simp add: above_cap)
  qed
qed

lemma low_values: "defender_defcon 5 = 0.005" "midfielder_defcon 6 = 0.006"
  by (simp_all add: defender_defcon_def midfielder_defcon_def defcon_term_def)

section \<open>Lemmas on the asset values\<close>

lemma predict_fitted: "fitted m \<Longrightarrow> predict sk m x = (Inr (cached_prediction sk m x), m)"
  by (auto simp: fitted_def predict_def cached_prediction_def)

lemma predict_result:
  assumes "predict sk m x = (Inr y, m')"
  shows "fitted m' \<and> y = cached_prediction sk m' x"
proof (cases "is_trained m")
  case True
  with assms show ?thesis
    by (auto simp: predict_def fitted_def cached_prediction_def split: option.splits)
next
  case False
  from predict_first[OF False assms] show ?thesis
    by (auto simp: fitted_def cached_prediction_def)
qed

lemma expected_points_fitted:
  "position_fitted pos s \<Longrightarrow> expected_points sk pos s row = Inr (row_xpts sk pos s row, s)"
  by (cases pos) (simp_all add: position_fitted_def row_xpts_def predict_fitted)

lemma expected_points_result:
  assumes "expected_points sk pos s row = Inr (x, s1)"
  shows "position_fitted pos s1 \<and> x = row_xpts sk pos s1 row
       \<and> fdr_value_model s1 = fdr_value_model s
       \<and> (\<forall>q. position_table q s1 = position_table q s)"
proof (cases pos)
  case GK
  with assms obtain y m where p: "predict sk (clean_sheet_points_model_gk_def s) (xGCp90 row) = (Inr y, m)"
    and x: "x = xpts_gk y row" and s1: "s1 = s\<lparr>clean_sheet_points_model_gk_def := m\<rparr>"
    by (auto split: prod.splits sum.splits)
  from predict_result[OF p] x s1 GK show ?thesis
    by (auto simp: position_fitted_def row_xpts_def position_table_def split: position.splits)
next
  case DEF
  with assms obtain y m where p: "predict sk (clean_sheet_points_model_gk_def s) (xGCp90 row) = (Inr y, m)"
    and x: "x = xpts_def y row" and s1: "s1 = s\<lparr>clean_sheet_points_model_gk_def := m\<rparr>"
    by (auto split: prod.splits sum.splits)
  from predict_result[OF p] x s1 DEF show ?thesis
    by (auto simp: position_fitted_def row_xpts_def position_table_def split: position.splits)
next
  case MID
  with assms obtain y m where p: "predict sk (clean_sheet_points_model_mid s) (xGCp90 row) = (Inr y, m)"
    and x: "x = xpts_mid y row" and s1: "s1 = s\<lparr>clean_sheet_points_model_mid := m\<rparr>"
    by (auto split: prod.splits sum.splits)
  from predict_result[OF p] x s1 MID show ?thesis
    by (auto simp: position_fitted_def row_xpts_def position_table_def split: position.splits)
next
  case FWD
  with assms show ?thesis
    by (auto simp: position_fitted_def row_xpts_def)
qed

lemma team_fdr_value_settled:
  assumes "get_fdr_value gw wc fh (fdr_value_model s) = Inr (fdr_value_model s)"
  shows "team_fdr_value gw wc fh t s =
         (case get_fdr_value_by_team (fdr_value_model s) t of
            Inl e \<Rightarrow> Inl e | Inr v \<Rightarrow> Inr (v, s))"
  by (simp add: team_fdr_value_def assms split: sum.splits)

lemma team_fdr_value_result:
  assumes H: "rounded_ratings (fdr_value_model s)"
    and run: "team_fdr_value gw wc fh t s = Inr (v, s2)"
  shows "get_fdr_value gw wc fh (fdr_value_model s2) = Inr (fdr_value_model s2)
       \<and> rounded_ratings (fdr_value_model s2)
       \<and> get_fdr_value_by_team (fdr_value_model s2) t = Inr v
       \<and> s2 = s\<lparr>fdr_value_model := fdr_value_model s2\<rparr>"
proof -
  from run obtain df where g: "get_fdr_value gw wc fh (fdr_value_model s) = Inr df"
    and l: "get_fdr_value_by_team df t = Inr v" and s2: "s2 = s\<lparr>fdr_value_model := df\<rparr>"
    by (auto simp: team_fdr_value_def split: sum.splits)
  from get_fdr_value_idem[OF H g] l s2 show ?thesis by simp
qed

lemma settled_loop:
  assumes "settled pos gw wc fh s"
    and "asset_loop sk pos gw wc fh rows s = Inr (res, s')"
  shows "s' = s
       \<and> res = (map (row_xpts sk pos s) rows, map (row_fdr s) rows, map (row_value sk pos s) rows)
       \<and> (\<forall>r\<in>set rows. get_fdr_value_by_team (fdr_value_model s) (team r) = Inr (row_fdr s r))"
  using assms(2)
proof (induction rows arbitrary: res)
  case Nil
  then show ?case by auto
next
  case (Cons row rows)
  from assms(1) have ep: "expected_points sk pos s row = Inr (row_xpts sk pos s row, s)"
    and tf: "team_fdr_value gw wc fh (team row) s =
         (case get_fdr_value_by_team (fdr_value_model s) (team row) of
            Inl e \<Rightarrow> Inl e | Inr v \<Rightarrow> Inr (v, s))"
    by (simp_all add: settled_def expected_points_fitted team_fdr_value_settled)
  from Cons.prems obtain v where l: "get_fdr_value_by_team (fdr_value_model s) (team row) = Inr v"
    by (cases "get_fdr_value_by_team (fdr_value_model s) (team row)") (simp_all add: ep tf)
  then have v: "v = row_fdr s row" by (simp add: row_fdr_def)
  from Cons.prems obtain res' where rest: "asset_loop sk pos gw wc fh rows s = Inr (res', s')"
    and res: "res = (row_xpts sk pos s row # fst res', v # fst (snd res'),
                     composite_value (row_xpts sk pos s row) v (price row) # snd (snd res'))"
    by (auto simp: ep tf l split: sum.splits prod.splits)
  from Cons.IH[OF rest] res l v show ?case
    by (simp add: row_value_def)
qed

lemma settled_loop_run:
  assumes "settled pos gw wc fh s"
    and "\<And>r. r \<in> set rows \<Longrightarrow> get_fdr_value_by_team (fdr_value_model s) (team r) = Inr (row_fdr s r)"
  shows "asset_loop sk pos gw wc fh rows s =
         Inr ((map (row_xpts sk pos s) rows, map (row_fdr s) rows, map (row_value sk pos s) rows), s)"
  using assms(2)
proof (induction rows)
  case Nil
  then show ?case by simp
next
  case (Cons row rows)
  from assms(1) have ep: "expected_points sk pos s row = Inr (row_xpts sk pos s row, s)"
    and tf: "team_fdr_value gw wc fh (team row) s =
         (case get_fdr_value_by_team (fdr_value_model s) (team row) of
            Inl e \<Rightarrow> Inl e | Inr v \<Rightarrow> Inr (v, s))"
    by (simp_all add: settled_def expected_points_fitted team_fdr_value_settled)
  from Cons show ?case
    by (simp add: ep tf row_value_def)
qed

lemma first_loop:
  assumes H: "rounded_ratings (fdr_value_model s)"
    and run: "asset_loop sk pos gw wc fh (row # rows) s = Inr (res, s')"
  shows "settled pos gw wc fh s'
       \<and> res = (map (row_xpts sk pos s') (row # rows), map (row_fdr s') (row # rows),
                map (row_value sk pos s') (row # rows))
       \<and> (\<forall>r\<in>set (row # rows). get_fdr_value_by_team (fdr_value_model s') (team r) = Inr (row_fdr s' r))
       \<and> (\<forall>q. position_table q s' = position_table q s)"
proof -
  from run obtain x s1 where ep: "expected_points sk pos s row = Inr (x, s1)"
    by (cases "expected_points sk pos s row") auto
  from run ep obtain v s2 where tf: "team_fdr_value gw wc fh (team row) s1 = Inr (v, s2)"
    by (cases "team_fdr_value gw wc fh (team row) s1") auto
  from run ep tf obtain res' where rest: "asset_loop sk pos gw wc fh rows s2 = Inr (res', s')"
    and res: "res = (x # fst res', v # fst (snd res'),
                     composite_value x v (price row) # snd (snd res'))"
    by (auto split: sum.splits prod.splits)
  from expected_points_result[OF ep]
  have e1: "position_fitted pos s1" "x = row_xpts sk pos s1 row"
    "fdr_value_model s1 = fdr_value_model s" "\<And>q. position_table q s1 = position_table q s"
    by simp_all
  from H e1(3) have H1: "rounded_ratings (fdr_value_model s1)" by simp
  from team_fdr_value_result[OF H1 tf]
  have t2: "get_fdr_value gw wc fh (fdr_value_model s2) = Inr (fdr_value_model s2)"
    "get_fdr_value_by_team (fdr_value_model s2) (team row) = Inr v"
    "s2 = s1\<lparr>fdr_value_model := fdr_value_model s2\<rparr>"
    by simp_all
  have same: "position_fitted pos s2 = position_fitted pos s1"
    "row_xpts sk pos s2 = row_xpts sk pos s1" "\<And>q. position_table q s2 = position_table q s1"
    by (subst t2(3), simp add: position_fitted_def row_xpts_def position_table_def fun_eq_iff
          split: position.splits)+
  have st: "settled pos gw wc fh s2"
    using e1(1) t2(1) same(1) by (simp add: settled_def)
  from settled_loop[OF st rest]
  have s': "s' = s2"
    and r': "res' = (map (row_xpts sk pos s2) rows, map (row_fdr s2) rows, map (row_value sk pos s2) rows)"
    and l': "\<forall>r\<in>set rows. get_fdr_value_by_team (fdr_value_model s2) (team r) = Inr (row_fdr s2 r)"
    by simp_all
  have v: "v = row_fdr s2 row" using t2(2) by (simp add: row_fdr_def)
  show ?thesis
    using st res r' l' v t2(2) e1(2) e1(4) same(2) same(3) unfolding s'
    by (simp add: row_value_def)
qed

lemma set_value_columns_map:
  "set_value_columns rows (map (row_xpts sk pos s) rows) (map (row_fdr s) rows)
      (map (row_value sk pos s) rows) = map (valued sk pos s) rows"
  by (induction rows) (simp_all add: set_value_columns_def valued_def)

lemma update_df_map:
  "update_df rows (map (row_xpts sk pos s) rows) (map (row_fdr s) rows)
      (map (row_value sk pos s) rows) =
   map (valued sk pos s) (sort_values_desc (row_value sk pos s) rows)"
  by (simp add: update_df_def set_value_columns_map sort_values_desc_map valued_def)

lemma strip_valued: "map strip_row (map (valued sk pos s) rows) = rows"
  by (induction rows) (simp_all add: strip_row_def valued_def)

lemma with_table:
  "position_fitted pos (set_position_table q df s) = position_fitted pos s"
  "fdr_value_model (set_position_table q df s) = fdr_value_model s"
  "row_xpts sk pos (set_position_table q df s) = row_xpts sk pos s"
  "row_fdr (set_position_table q df s) = row_fdr s"
  "row_value sk pos (set_position_table q df s) = row_value sk pos s"
  "valued sk pos (set_position_table q df s) = valued sk pos s"
  "position_table q (set_position_table q df s) = df"
  "set_position_table q df (set_position_table q df s) = set_position_table q df s"
  by (cases q; simp add: position_fitted_def set_position_table_def row_xpts_def row_fdr_def
        row_value_def valued_def position_table_def fun_eq_iff split: position.splits)+

lemma get_asset_value_twice:
  assumes H: "rounded_ratings (fdr_value_model s)"
    and run: "get_asset_value sk pos gw wc_gw fh_gw s = Inr (df, s')"
  shows "get_asset_value sk pos gw wc_gw fh_gw s' = Inr (df, s')"
proof (cases "player_rows (position_table pos s)")
  case Nil
  with run have "df = Valued []" "s' = set_position_table pos (Valued []) s"
    by (auto simp: get_asset_value_def Let_def update_df_def set_value_columns_def
        sort_values_desc_def)
  then show ?thesis
    by (simp add: get_asset_value_def Let_def with_table player_rows_def update_df_def
        set_value_columns_def sort_values_desc_def)
next
  case (Cons row rows)
  let ?rows = "row # rows"
  from run Cons obtain res s1 where
    loop: "asset_loop sk pos gw wc_gw fh_gw ?rows s = Inr (res, s1)"
    and df: "df = Valued (update_df ?rows (fst res) (fst (snd res)) (snd (snd res)))"
    and s': "s' = set_position_table pos df s1"
    by (auto simp: get_asset_value_def Let_def split: sum.splits prod.splits)
  from first_loop[OF H loop]
  have st: "settled pos gw wc_gw fh_gw s1"
    and res: "res = (map (row_xpts sk pos s1) ?rows, map (row_fdr s1) ?rows,
                     map (row_value sk pos s1) ?rows)"
    and ok: "\<forall>r\<in>set ?rows. get_fdr_value_by_team (fdr_value_model s1) (team r) = Inr (row_fdr s1 r)"
    by simp_all
  let ?sorted = "sort_values_desc (row_value sk pos s1) ?rows"
  have df1: "df = Valued (map (valued sk pos s1) ?sorted)"
    unfolding df res by (simp only: fst_conv snd_conv update_df_map)
  have st': "settled pos gw wc_gw fh_gw s'"
    using st by (simp add: settled_def s' with_table)
  have rows': "player_rows (position_table pos s') = ?sorted"
    unfolding s' with_table df1 by (simp add: player_rows_def strip_valued del: map_map)
  have "set ?sorted = set ?rows"
    unfolding sort_values_desc_def by (rule set_sort)
  with ok have ok': "\<And>r. r \<in> set ?sorted \<Longrightarrow>
       get_fdr_value_by_team (fdr_value_model s') (team r) = Inr (row_fdr s' r)"
    unfolding s' with_table by blast
  have loop': "asset_loop sk pos gw wc_gw fh_gw ?sorted s' =
        Inr ((map (row_xpts sk pos s') ?sorted, map (row_fdr s') ?sorted,
              map (row_value sk pos s') ?sorted), s')"
    using st' ok' by (rule settled_loop_run)
  have "update_df ?sorted (map (row_xpts sk pos s') ?sorted) (map (row_fdr s') ?sorted)
          (map (row_value sk pos s') ?sorted) =
        map (valued sk pos s') (sort_values_desc (row_value sk pos s') ?sorted)"
    by (rule update_df_map)
  also have "\<dots> = map (valued sk pos s1) ?sorted"
    unfolding s' with_table by (simp only: sort_values_desc_twice)
  finally have upd: "Valued (update_df ?sorted (map (row_xpts sk pos s') ?sorted)
          (map (row_fdr s') ?sorted) (map (row_value sk pos s') ?sorted)) = df"
    by (simp add: df1)
  have "set_position_table pos df s' = s'"
    unfolding s' by (simp add: with_table)
  then show ?thesis
    unfolding get_asset_value_def rows' Let_def loop' by (simp add: upd)
qed

lemma toy_predict_trained: "predict toy_sklearn toy_trained 1 = (Inr 4, toy_trained)"
  by (simp add: predict_def toy_sklearn_def toy_trained_def)

lemma zscore_pair_equal: "zscore_normalisation [a, a] = [NaN, NaN]"
  using zscore_const[of a "[(), ()]"] by simp

lemma fine_scored_eval: "get_fdr_value 1 0 0 fine_scored = Inr fine_rescored"
proof -
  define c :: real where "c = 3 * ln 7 + 3 * ln 6 + 3 * ln 5 + 3 * ln 4 + 3 * ln 3 + 3 * ln 2
             + 3 * (11 / 50) + 3 * (9 / 50) + 3 * (7 / 50) + 3 * (1 / 10)"
  have "each_row (\<lambda>r. raw_fdr 1 0 0 (ratings r)) (base_rows fine_scored) = Inr [c, c]"
    unfolding c_def fine_scored_def by (simp add: base_rows_def raw_fdr_gw1)
  moreover have "map fdr_score (zscore_normalisation [c, c]) = [NaN, NaN]"
    by (simp add: zscore_pair_equal fdr_score_def np_map_def)
  ultimately have "get_fdr_value 1 0 0 fine_scored =
      Inr (Scored (map round_row (sort_values_desc fdr_value
                (set_fdr_column (base_rows fine_scored) [NaN, NaN]))))"
    by (rule get_fdr_value_eval)
  then show ?thesis
    by (simp add: fine_scored_def fine_rescored_def base_rows_def set_fdr_column_def
        sort_values_desc_def desc_key_def round_row_def np_round2_def np_map_def)
qed

lemma keeper_first:
  assumes "get_fdr_value 1 0 0 fixtures = Inr scored"
    and "get_fdr_value_by_team scored ''A'' = Inr f"
    and "predict toy_sklearn m 1 = (Inr 4, toy_trained)"
  shows "get_asset_value_gk toy_sklearn 1 0 0 (keeper_model (Plain [example_keeper]) fixtures m) =
         Inr (keeper_valued (19 / 3) f (composite_value (19 / 3) f 16),
              keeper_model (keeper_valued (19 / 3) f (composite_value (19 / 3) f 16)) scored toy_trained)"
  using assms
  by (simp add: get_asset_value_gk_def get_asset_value_def keeper_model_def position_table_def
      player_rows_def example_keeper_def team_fdr_value_def xpts_gk_def update_df_def
      set_value_columns_def sort_values_desc_def keeper_valued_def set_position_table_def Let_def)

lemma keeper_again:
  assumes "get_fdr_value 1 0 0 fixtures = Inr scored"
    and "get_fdr_value_by_team scored ''A'' = Inr f"
    and "predict toy_sklearn m 1 = (Inr 4, toy_trained)"
  shows "get_asset_value_gk toy_sklearn 1 0 0 (keeper_model (keeper_valued x0 f0 a0) fixtures m) =
         Inr (keeper_valued (19 / 3) f (composite_value (19 / 3) f 16),
              keeper_model (keeper_valued (19 / 3) f (composite_value (19 / 3) f 16)) scored toy_trained)"
  using assms
  by (simp add: get_asset_value_gk_def get_asset_value_def keeper_model_def position_table_def
      player_rows_def strip_row_def team_fdr_value_def xpts_gk_def update_df_def
      set_value_columns_def sort_values_desc_def keeper_valued_def set_position_table_def Let_def)

lemma composite_keeper:
  "composite_value (19 / 3) (Fin (9 / 2)) 16 = Fin 56"
  "composite_value (19 / 3) (Fin (11 / 2)) 16 = Fin 60"
  "composite_value (19 / 3) NaN 16 = NaN"
  by (simp_all add: composite_value_def np_map_def sixteen_powr)

lemma example_keeper_eval:
  "get_asset_value_gk toy_sklearn 1 0 0 (keeper_model (Plain [example_keeper]) example_fixtures toy_model) =
   Inr (keeper_valued (19 / 3) (Fin 4.5) (Fin 56),
        keeper_model (keeper_valued (19 / 3) (Fin 4.5) (Fin 56)) example_scored toy_trained)"
  using keeper_first[OF example_fixtures_eval _ toy_predict, of "Fin 4.5"]
  by (simp add: composite_keeper example_scored_def get_fdr_value_by_team_def)

lemma fine_keeper_eval:
  "get_asset_value_gk toy_sklearn 1 0 0 (keeper_model (Plain [example_keeper]) fine_fixtures toy_model) =
   Inr (keeper_valued (19 / 3) (Fin 5.5) (Fin 60),
        keeper_model (keeper_valued (19 / 3) (Fin 5.5) (Fin 60)) fine_scored toy_trained)"
  using keeper_first[OF fine_fixtures_eval _ toy_predict, of "Fin 5.5"]
  by (simp add: composite_keeper fine_scored_def get_fdr_value_by_team_def)

lemma fine_keeper_again_eval:
  "get_asset_value_gk toy_sklearn 1 0 0
     (keeper_model (keeper_valued (19 / 3) (Fin 5.5) (Fin 60)) fine_scored toy_trained) =
   Inr (keeper_valued (19 / 3) NaN NaN,
        keeper_model (keeper_valued (19 / 3) NaN NaN) fine_rescored toy_trained)"
  using keeper_again[OF fine_scored_eval _ toy_predict_trained, of NaN]
  by (simp add: composite_keeper fine_rescored_def get_fdr_value_by_team_def)

lemma not_two_decimals: "\<not> two_decimals (19 / 3)" "round2 (19 / 3) = 6.33"
  by (simp_all add: two_decimals_def round2_def rint_def)

subsection \<open>The shape of the returned table\<close>

lemma asset_loop_lengths:
  "asset_loop sk pos gw wc fh rows s = Inr ((xs, fs, vs), s') \<Longrightarrow>
   length xs = length rows \<and> length fs = length rows \<and> length vs = length rows"
proof (induction rows arbitrary: s xs fs vs)
  case Nil
  then show ?case by simp
next
  case (Cons row rows)
  from Cons.prems obtain x s1 f s2 xs' fs' vs' where
    rest: "asset_loop sk pos gw wc fh rows s2 = Inr ((xs', fs', vs'), s')"
    and l: "xs = x # xs'" "fs = f # fs'" "vs = composite_value x f (price row) # vs'"
    by (auto split: sum.splits prod.splits)
  from Cons.IH[OF rest] l show ?case by simp
qed

lemma strip_set_value_columns:
  "length xs = length rows \<Longrightarrow> length fs = length rows \<Longrightarrow> length vs = length rows \<Longrightarrow>
   map strip_row (set_value_columns rows xs fs vs) = rows"
proof (induction rows arbitrary: xs fs vs)
  case Nil
  then show ?case by (simp add: set_value_columns_def)
next
  case (Cons r rows)
  then obtain x xs' f fs' v vs' where "xs = x # xs'" "fs = f # fs'" "vs = v # vs'"
    by (cases xs; cases fs; cases vs) auto
  with Cons show ?case
    by (simp add: set_value_columns_def strip_row_def)
qed

lemma get_asset_value_appends_and_sorts:
  assumes "get_asset_value sk pos gw wc fh s = Inr (df, s')"
  shows "\<exists>rows. df = Valued rows
           \<and> sorted (map (\<lambda>r. desc_key (asset_value r)) rows)
           \<and> mset (map strip_row rows) = mset (player_rows (position_table pos s))"
proof -
  let ?rows = "player_rows (position_table pos s)"
  from assms obtain xs fs vs s1 where
    loop: "asset_loop sk pos gw wc fh ?rows s = Inr ((xs, fs, vs), s1)"
    and df: "df = Valued (update_df ?rows xs fs vs)"
    by (auto simp: get_asset_value_def Let_def split: sum.splits prod.splits)
  let ?cols = "set_value_columns ?rows xs fs vs"
  have upd: "update_df ?rows xs fs vs = sort_key (\<lambda>r. desc_key (asset_value r)) ?cols"
    by (simp add: update_df_def sort_values_desc_def)
  have "sorted (map (\<lambda>r. desc_key (asset_value r)) (update_df ?rows xs fs vs))"
    unfolding upd by (rule sorted_sort_key)
  moreover have "mset (map strip_row (update_df ?rows xs fs vs)) = mset (map strip_row ?cols)"
    unfolding upd by simp
  moreover have "map strip_row ?cols = ?rows"
    using asset_loop_lengths[OF loop] by (intro strip_set_value_columns) simp_all
  ultimately show ?thesis using df by simp
qed

section \<open>Lemmas on the sort as a parameter\<close>

lemma valid_argsort_mset: "valid_argsort srt \<Longrightarrow> mset (srt ks) = mset [0..<length ks]"
  by (simp add: valid_argsort_def)

lemma valid_argsort_sorted: "valid_argsort srt \<Longrightarrow> sorted (map (\<lambda>i. ks ! i) (srt ks))"
  by (simp add: valid_argsort_def)

lemma valid_argsort_set: "valid_argsort srt \<Longrightarrow> set (srt ks) = {0..<length ks}"
  using mset_eq_setD[OF valid_argsort_mset, of srt ks] by simp

lemma mset_sort_values_by:
  assumes "valid_argsort srt"
  shows "mset (sort_values_by srt col rows) = mset rows"
proof -
  let ?ks = "map (\<lambda>r. desc_key (col r)) rows"
  have "mset (map (\<lambda>i. rows ! i) (srt ?ks)) = image_mset (\<lambda>i. rows ! i) (mset (srt ?ks))"
    by simp
  also have "\<dots> = image_mset (\<lambda>i. rows ! i) (mset [0..<length rows])"
    using valid_argsort_mset[OF assms, of ?ks] by simp
  also have "\<dots> = mset (map (\<lambda>i. rows ! i) [0..<length rows])" by simp
  also have "\<dots> = mset rows" by (simp only: map_nth)
  finally show ?thesis by (simp add: sort_values_by_def)
qed

lemma set_sort_values_by: "valid_argsort srt \<Longrightarrow> set (sort_values_by srt col rows) = set rows"
  by (rule mset_eq_setD) (rule mset_sort_values_by)

lemma sorted_sort_values_by:
  assumes "valid_argsort srt"
  shows "sorted (map (\<lambda>r. desc_key (col r)) (sort_values_by srt col rows))"
proof -
  let ?ks = "map (\<lambda>r. desc_key (col r)) rows"
  have "map (\<lambda>r. desc_key (col r)) (sort_values_by srt col rows) = map (\<lambda>i. ?ks ! i) (srt ?ks)"
    using valid_argsort_set[OF assms, of ?ks] by (simp add: sort_values_by_def)
  then show ?thesis using valid_argsort_sorted[OF assms, of ?ks] by simp
qed

lemma sort_values_by_map:
  assumes "valid_argsort srt"
  shows "sort_values_by srt col (map g xs) = map g (sort_values_by srt (\<lambda>r. col (g r)) xs)"
proof -
  let ?ks = "map (\<lambda>r. desc_key (col (g r))) xs"
  have "map (\<lambda>i. map g xs ! i) (srt ?ks) = map (\<lambda>i. g (xs ! i)) (srt ?ks)"
    using valid_argsort_set[OF assms, of ?ks] by simp
  then show ?thesis by (simp add: sort_values_by_def o_def)
qed

lemma sort_values_by_Nil: "valid_argsort srt \<Longrightarrow> sort_values_by srt col [] = []"
  using mset_sort_values_by[of srt col "[]"] by simp

lemma valid_stable_argsort: "valid_argsort stable_argsort"
  by (simp add: valid_argsort_def stable_argsort_def)

lemma insort_key_cong_set:
  "f x = g x \<Longrightarrow> (\<And>y. y \<in> set ys \<Longrightarrow> f y = g y)
     \<Longrightarrow> insort_key f x ys = insort_key g x ys"
  by (induction ys) simp_all

lemma sort_key_cong_set:
  "(\<And>x. x \<in> set xs \<Longrightarrow> f x = g x) \<Longrightarrow> sort_key f xs = sort_key g xs"
proof (induction xs)
  case Nil
  show ?case by simp
next
  case (Cons a xs)
  have "sort_key f xs = sort_key g xs" using Cons by simp
  moreover have "insort_key f a (sort_key g xs) = insort_key g a (sort_key g xs)"
    by (rule insort_key_cong_set) (simp_all add: Cons.prems)
  ultimately show ?case by simp
qed

lemma sort_values_by_stable: "sort_values_by stable_argsort col rows = sort_values_desc col rows"
proof -
  let ?k = "\<lambda>r. desc_key (col r)"
  have "sort_key (\<lambda>i. map ?k rows ! i) [0..<length rows] = sort_key (\<lambda>i. ?k (rows ! i)) [0..<length rows]"
    by (rule sort_key_cong_set) simp
  then have "map (\<lambda>i. rows ! i) (stable_argsort (map ?k rows)) =
        map (\<lambda>i. rows ! i) (sort_key (\<lambda>i. ?k (rows ! i)) [0..<length rows])"
    by (simp add: stable_argsort_def)
  also have "\<dots> = sort_key ?k (map (\<lambda>i. rows ! i) [0..<length rows])"
    by (simp only: sort_key_map)
  also have "\<dots> = sort_key ?k rows" by (simp only: map_nth)
  finally show ?thesis by (simp add: sort_values_by_def sort_values_desc_def)
qed

lemma inj_desc_key: "inj desc_key"
  by (rule injI) (simp add: desc_key_def split: npfloat.splits)

lemma sorted_mset_unique:
  fixes xs ys :: "'a::linorder list"
  assumes "mset xs = mset ys" "sorted xs" "sorted ys"
  shows "xs = ys"
proof -
  have "sort ys = xs" using assms(1,2) by (rule properties_for_sort)
  moreover have "sort ys = ys" using assms(3) by (rule sorted_sort_id)
  ultimately show ?thesis by simp
qed

lemma filter_sorted_perm:
  fixes k :: "'a \<Rightarrow> 'b::linorder"
  assumes "mset xs = mset ys" "sorted (map k xs)" "sorted (map k ys)"
  shows "map k (filter P xs) = map k (filter P ys)"
proof (rule sorted_mset_unique)
  have "mset (filter P xs) = mset (filter P ys)"
    using assms(1) by simp
  then show "mset (map k (filter P xs)) = mset (map k (filter P ys))"
    by (simp del: mset_filter)
  show "sorted (map k (filter P xs))" using assms(2) by (rule sorted_filter)
  show "sorted (map k (filter P ys))" using assms(3) by (rule sorted_filter)
qed

lemma lookup_scored:
  "get_fdr_value_by_team (Scored (map round_row (map (with_score g) rows))) t =
     (case map g (filter (\<lambda>r. team r = t) rows) of
        [] \<Rightarrow> Inl IndexError
      | v # _ \<Rightarrow> Inr (np_round2 v))"
proof -
  have "filter (\<lambda>r. team r = t) (map round_row (map (with_score g) rows)) =
        map round_row (map (with_score g) (filter (\<lambda>r. team r = t) rows))"
    by (induction rows) (simp_all add: round_row_def with_score_def)
  then show ?thesis
    by (cases "filter (\<lambda>r. team r = t) rows")
       (simp_all add: get_fdr_value_by_team_def round_row_def with_score_def)
qed

lemma fdr_ready_lookup:
  assumes "fdr_ready gw wc fh rows0 df" "fdr_ready gw wc fh rows0 df'"
  shows "get_fdr_value_by_team df t = get_fdr_value_by_team df' t"
proof -
  let ?sc = "score_of gw wc fh rows0"
  from assms(1) obtain rows where r: "mset rows = mset rows0"
    "sorted (map (\<lambda>r. desc_key (?sc r)) rows)"
    "df = Scored (map round_row (map (with_score ?sc) rows))"
    unfolding fdr_ready_def by blast
  from assms(2) obtain rows' where r': "mset rows' = mset rows0"
    "sorted (map (\<lambda>r. desc_key (?sc r)) rows')"
    "df' = Scored (map round_row (map (with_score ?sc) rows'))"
    unfolding fdr_ready_def by blast
  have "mset rows = mset rows'" using r(1) r'(1) by simp
  then have "map (\<lambda>r. desc_key (?sc r)) (filter (\<lambda>r. team r = t) rows) =
        map (\<lambda>r. desc_key (?sc r)) (filter (\<lambda>r. team r = t) rows')"
    using r(2) r'(2) by (rule filter_sorted_perm)
  then have "map desc_key (map ?sc (filter (\<lambda>r. team r = t) rows)) =
        map desc_key (map ?sc (filter (\<lambda>r. team r = t) rows'))"
    by (simp only: map_map o_def)
  then have "map ?sc (filter (\<lambda>r. team r = t) rows) = map ?sc (filter (\<lambda>r. team r = t) rows')"
    by (simp only: inj_map_eq_map[OF inj_desc_key])
  then show ?thesis unfolding r(3) r'(3) lookup_scored by simp
qed

lemma get_fdr_value_by_Inr:
  assumes "get_fdr_value_by srt gw wc fh df = Inr df'"
  obtains raws where
    "each_row (\<lambda>r. raw_fdr gw wc fh (ratings r)) (base_rows df) = Inr raws"
    "df' = Scored (map round_row (sort_values_by srt fdr_value
             (set_fdr_column (base_rows df) (map fdr_score (zscore_normalisation raws)))))"
proof (cases "each_row (\<lambda>r. raw_fdr gw wc fh (ratings r)) (base_rows df)")
  case (Inl e)
  then show ?thesis using assms by (simp add: get_fdr_value_by_def)
next
  case (Inr raws)
  then show ?thesis using assms that[of raws] by (simp add: get_fdr_value_by_def)
qed

lemma scored_column:
  "set_fdr_column rows (map fdr_score (zscore_normalisation (map (raw_of gw wc fh) rows))) =
   map (with_score (score_of gw wc fh rows)) rows"
proof -
  have "map fdr_score (zscore_normalisation (map (raw_of gw wc fh) rows)) =
        map (score_of gw wc fh rows) rows"
    unfolding zscore_normalisation_map by (simp add: score_of_def)
  then show ?thesis by (simp add: set_fdr_column_map with_score_def)
qed

lemma sort_with_score:
  assumes "valid_argsort srt"
  shows "sort_values_by srt fdr_value (map (with_score g) rows) =
         map (with_score g) (sort_values_by srt g rows)"
  unfolding sort_values_by_map[OF assms] by (simp add: with_score_def)

lemma get_fdr_value_by_first:
  assumes V: "valid_argsort srt" and H: "rounded_ratings df"
    and run: "get_fdr_value_by srt gw wc fh df = Inr df'"
  shows "fdr_ready gw wc fh (base_rows df) df'"
proof -
  let ?rows = "base_rows df"
  let ?sc = "score_of gw wc fh ?rows"
  from run obtain raws where
    raws: "each_row (\<lambda>r. raw_fdr gw wc fh (ratings r)) ?rows = Inr raws"
    and df': "df' = Scored (map round_row (sort_values_by srt fdr_value
             (set_fdr_column ?rows (map fdr_score (zscore_normalisation raws)))))"
    by (rule get_fdr_value_by_Inr)
  have eq: "raws = map (raw_of gw wc fh) ?rows" using raws by (rule each_row_raw)
  have ok: "list_all (\<lambda>r. raw_fdr gw wc fh (ratings r) = Inr (raw_of gw wc fh r)) ?rows"
    unfolding list_all_iff using each_row_raw_ok[OF raws] by blast
  have "df' = Scored (map round_row (map (with_score ?sc) (sort_values_by srt ?sc ?rows)))"
    unfolding df' eq scored_column sort_with_score[OF V] ..
  moreover have "mset (sort_values_by srt ?sc ?rows) = mset ?rows"
    using V by (rule mset_sort_values_by)
  moreover have "sorted (map (\<lambda>r. desc_key (?sc r)) (sort_values_by srt ?sc ?rows))"
    using V by (rule sorted_sort_values_by)
  ultimately show ?thesis
    unfolding fdr_ready_def using H ok by (auto simp: rounded_ratings_def)
qed

lemma get_fdr_value_by_ready:
  assumes V: "valid_argsort srt" and R: "fdr_ready gw wc fh rows0 df"
  shows "\<exists>df'. get_fdr_value_by srt gw wc fh df = Inr df' \<and> fdr_ready gw wc fh rows0 df'"
proof -
  let ?sc = "score_of gw wc fh rows0"
  from R obtain rows where m: "mset rows = mset rows0"
    and df: "df = Scored (map round_row (map (with_score ?sc) rows))"
    unfolding fdr_ready_def by blast
  from R have H0: "list_all (\<lambda>r. list_all two_decimals (ratings r)) rows0"
    and ok0: "list_all (\<lambda>r. raw_fdr gw wc fh (ratings r) = Inr (raw_of gw wc fh r)) rows0"
    unfolding fdr_ready_def by blast+
  have set_eq: "set rows = set rows0" using m by (rule mset_eq_setD)
  have H': "list_all (\<lambda>r. list_all two_decimals (ratings r)) rows"
    using H0 by (simp add: list_all_iff set_eq)
  have base: "base_rows df = rows" unfolding df using H' by (rule base_rows_rounded)
  have raws: "each_row (\<lambda>r. raw_fdr gw wc fh (ratings r)) rows = Inr (map (raw_of gw wc fh) rows)"
    by (rule each_row_map) (use ok0 in \<open>simp add: list_all_iff set_eq\<close>)
  have sc: "score_of gw wc fh rows = ?sc" using m by (rule score_of_perm)
  let ?rows' = "sort_values_by srt ?sc rows"
  let ?df' = "Scored (map round_row (map (with_score ?sc) ?rows'))"
  have run: "get_fdr_value_by srt gw wc fh df = Inr ?df'"
    unfolding get_fdr_value_by_def base raws
    by (simp add: scored_column sc sort_with_score[OF V])
  have "mset ?rows' = mset rows0"
    using mset_sort_values_by[OF V, of ?sc rows] m by simp
  moreover have "sorted (map (\<lambda>r. desc_key (?sc r)) ?rows')"
    using V by (rule sorted_sort_values_by)
  ultimately have "fdr_ready gw wc fh rows0 ?df'"
    unfolding fdr_ready_def using H0 ok0 by blast
  with run show ?thesis by blast
qed

subsection \<open>The loop over a table, for every valid sort\<close>

lemma row_fdr_ready:
  assumes "fdr_ready gw wc fh rows0 (fdr_value_model s)"
    "fdr_ready gw wc fh rows0 (fdr_value_model s')"
  shows "row_fdr s' = row_fdr s"
  unfolding row_fdr_def fun_eq_iff fdr_ready_lookup[OF assms] by simp

lemma with_fdr:
  "position_fitted pos (s\<lparr>fdr_value_model := df\<rparr>) = position_fitted pos s"
  "row_xpts sk pos (s\<lparr>fdr_value_model := df\<rparr>) = row_xpts sk pos s"
  "position_table q (s\<lparr>fdr_value_model := df\<rparr>) = position_table q s"
  "fdr_value_model (s\<lparr>fdr_value_model := df\<rparr>) = df"
  by (simp_all add: position_fitted_def row_xpts_def position_table_def fun_eq_iff
        split: position.splits)

lemma team_fdr_value_by_ready:
  assumes V: "valid_argsort srt" and R: "fdr_ready gw wc fh rows0 (fdr_value_model s)"
  shows "\<exists>df'. fdr_ready gw wc fh rows0 df'
      \<and> team_fdr_value_by srt gw wc fh t s =
          (case get_fdr_value_by_team (fdr_value_model s) t of
             Inl e \<Rightarrow> Inl e | Inr v \<Rightarrow> Inr (v, s\<lparr>fdr_value_model := df'\<rparr>))"
proof -
  from get_fdr_value_by_ready[OF V R] obtain df' where
    run: "get_fdr_value_by srt gw wc fh (fdr_value_model s) = Inr df'"
    and R': "fdr_ready gw wc fh rows0 df'" by blast
  have "get_fdr_value_by_team df' t = get_fdr_value_by_team (fdr_value_model s) t"
    using R' R by (rule fdr_ready_lookup)
  then have "team_fdr_value_by srt gw wc fh t s =
          (case get_fdr_value_by_team (fdr_value_model s) t of
             Inl e \<Rightarrow> Inl e | Inr v \<Rightarrow> Inr (v, s\<lparr>fdr_value_model := df'\<rparr>))"
    by (simp add: team_fdr_value_by_def run)
  with R' show ?thesis by blast
qed

lemma ready_loop:
  assumes V: "valid_argsort srt" and pf: "position_fitted pos s"
    and R: "fdr_ready gw wc fh rows0 (fdr_value_model s)"
    and run: "asset_loop_by srt sk pos gw wc fh rows s = Inr (res, s')"
  shows "s' = s\<lparr>fdr_value_model := fdr_value_model s'\<rparr>
       \<and> fdr_ready gw wc fh rows0 (fdr_value_model s')
       \<and> res = (map (row_xpts sk pos s) rows, map (row_fdr s) rows, map (row_value sk pos s) rows)
       \<and> (\<forall>r\<in>set rows. get_fdr_value_by_team (fdr_value_model s) (team r) = Inr (row_fdr s r))"
  using pf R run
proof (induction rows arbitrary: s res)
  case Nil
  then show ?case by auto
next
  case (Cons row rows)
  have ep: "expected_points sk pos s row = Inr (row_xpts sk pos s row, s)"
    using Cons.prems(1) by (rule expected_points_fitted)
  from team_fdr_value_by_ready[OF V Cons.prems(2)] obtain df' where
    R': "fdr_ready gw wc fh rows0 df'"
    and tf: "team_fdr_value_by srt gw wc fh (team row) s =
          (case get_fdr_value_by_team (fdr_value_model s) (team row) of
             Inl e \<Rightarrow> Inl e | Inr v \<Rightarrow> Inr (v, s\<lparr>fdr_value_model := df'\<rparr>))"
    by blast
  let ?s2 = "s\<lparr>fdr_value_model := df'\<rparr>"
  from Cons.prems(3) obtain v where l: "get_fdr_value_by_team (fdr_value_model s) (team row) = Inr v"
    by (cases "get_fdr_value_by_team (fdr_value_model s) (team row)") (simp_all add: ep tf)
  then have v: "v = row_fdr s row" by (simp add: row_fdr_def)
  from Cons.prems(3) obtain res' where rest: "asset_loop_by srt sk pos gw wc fh rows ?s2 = Inr (res', s')"
    and res: "res = (row_xpts sk pos s row # fst res', v # fst (snd res'),
                     composite_value (row_xpts sk pos s row) v (price row) # snd (snd res'))"
    by (auto simp: ep tf l split: sum.splits prod.splits)
  have pf2: "position_fitted pos ?s2" using Cons.prems(1) by (simp only: with_fdr)
  have R2: "fdr_ready gw wc fh rows0 (fdr_value_model ?s2)" using R' by simp
  have fdr2: "row_fdr ?s2 = row_fdr s" using Cons.prems(2) R2 by (rule row_fdr_ready)
  have val2: "row_value sk pos ?s2 = row_value sk pos s"
    by (simp add: row_value_def fun_eq_iff fdr2 with_fdr)
  have look2: "\<And>t. get_fdr_value_by_team (fdr_value_model ?s2) t = get_fdr_value_by_team (fdr_value_model s) t"
    using R2 Cons.prems(2) by (rule fdr_ready_lookup)
  from Cons.IH[OF pf2 R2 rest]
  have i1: "s' = ?s2\<lparr>fdr_value_model := fdr_value_model s'\<rparr>"
    and i2: "fdr_ready gw wc fh rows0 (fdr_value_model s')"
    and i3: "res' = (map (row_xpts sk pos ?s2) rows, map (row_fdr ?s2) rows, map (row_value sk pos ?s2) rows)"
    and i4: "\<forall>r\<in>set rows. get_fdr_value_by_team (fdr_value_model ?s2) (team r) = Inr (row_fdr ?s2 r)"
    by blast+
  have c1: "s' = s\<lparr>fdr_value_model := fdr_value_model s'\<rparr>"
    by (subst i1) simp
  have c3: "res = (map (row_xpts sk pos s) (row # rows), map (row_fdr s) (row # rows),
                   map (row_value sk pos s) (row # rows))"
    unfolding res i3 by (simp add: v with_fdr fdr2 val2 row_value_def)
  have c4: "\<forall>r\<in>set (row # rows). get_fdr_value_by_team (fdr_value_model s) (team r) = Inr (row_fdr s r)"
    using i4 l v unfolding look2 fdr2 by simp
  from c1 i2 c3 c4 show ?case by blast
qed

lemma ready_loop_run:
  assumes V: "valid_argsort srt" and pf: "position_fitted pos s"
    and R: "fdr_ready gw wc fh rows0 (fdr_value_model s)"
    and ok: "\<And>r. r \<in> set rows \<Longrightarrow>
       get_fdr_value_by_team (fdr_value_model s) (team r) = Inr (row_fdr s r)"
  shows "\<exists>df'. fdr_ready gw wc fh rows0 df'
       \<and> asset_loop_by srt sk pos gw wc fh rows s =
         Inr ((map (row_xpts sk pos s) rows, map (row_fdr s) rows, map (row_value sk pos s) rows),
              s\<lparr>fdr_value_model := df'\<rparr>)"
  using pf R ok
proof (induction rows arbitrary: s)
  case Nil
  have "s\<lparr>fdr_value_model := fdr_value_model s\<rparr> = s" by simp
  then have "asset_loop_by srt sk pos gw wc fh [] s =
      Inr ((map (row_xpts sk pos s) [], map (row_fdr s) [], map (row_value sk pos s) []),
           s\<lparr>fdr_value_model := fdr_value_model s\<rparr>)" by simp
  with Nil.prems(2) show ?case by blast
next
  case (Cons row rows)
  have ep: "expected_points sk pos s row = Inr (row_xpts sk pos s row, s)"
    using Cons.prems(1) by (rule expected_points_fitted)
  from team_fdr_value_by_ready[OF V Cons.prems(2)] obtain df' where
    R': "fdr_ready gw wc fh rows0 df'"
    and tf: "team_fdr_value_by srt gw wc fh (team row) s =
          (case get_fdr_value_by_team (fdr_value_model s) (team row) of
             Inl e \<Rightarrow> Inl e | Inr v \<Rightarrow> Inr (v, s\<lparr>fdr_value_model := df'\<rparr>))"
    by blast
  let ?s2 = "s\<lparr>fdr_value_model := df'\<rparr>"
  have l: "get_fdr_value_by_team (fdr_value_model s) (team row) = Inr (row_fdr s row)"
    by (rule Cons.prems(3)) simp
  have pf2: "position_fitted pos ?s2" using Cons.prems(1) by (simp only: with_fdr)
  have R2: "fdr_ready gw wc fh rows0 (fdr_value_model ?s2)" using R' by simp
  have fdr2: "row_fdr ?s2 = row_fdr s" using Cons.prems(2) R2 by (rule row_fdr_ready)
  have val2: "row_value sk pos ?s2 = row_value sk pos s"
    by (simp add: row_value_def fun_eq_iff fdr2 with_fdr)
  have look2: "\<And>t. get_fdr_value_by_team (fdr_value_model ?s2) t = get_fdr_value_by_team (fdr_value_model s) t"
    using R2 Cons.prems(2) by (rule fdr_ready_lookup)
  have ok2: "\<And>r. r \<in> set rows \<Longrightarrow>
       get_fdr_value_by_team (fdr_value_model ?s2) (team r) = Inr (row_fdr ?s2 r)"
    unfolding look2 fdr2 by (rule Cons.prems(3)) simp
  from Cons.IH[OF pf2 R2 ok2] obtain df'' where
    R'': "fdr_ready gw wc fh rows0 df''"
    and rest: "asset_loop_by srt sk pos gw wc fh rows ?s2 =
         Inr ((map (row_xpts sk pos ?s2) rows, map (row_fdr ?s2) rows, map (row_value sk pos ?s2) rows),
              ?s2\<lparr>fdr_value_model := df''\<rparr>)"
    by blast
  have "asset_loop_by srt sk pos gw wc fh (row # rows) s =
         Inr ((map (row_xpts sk pos s) (row # rows), map (row_fdr s) (row # rows),
               map (row_value sk pos s) (row # rows)), s\<lparr>fdr_value_model := df''\<rparr>)"
    by (simp add: ep tf l rest with_fdr fdr2 val2 row_value_def)
  with R'' show ?case by blast
qed

lemma first_loop_by:
  assumes V: "valid_argsort srt" and H: "rounded_ratings (fdr_value_model s)"
    and run: "asset_loop_by srt sk pos gw wc fh (row # rows) s = Inr (res, s')"
  shows "position_fitted pos s'
       \<and> fdr_ready gw wc fh (base_rows (fdr_value_model s)) (fdr_value_model s')
       \<and> res = (map (row_xpts sk pos s') (row # rows), map (row_fdr s') (row # rows),
                map (row_value sk pos s') (row # rows))
       \<and> (\<forall>r\<in>set (row # rows). get_fdr_value_by_team (fdr_value_model s') (team r) = Inr (row_fdr s' r))
       \<and> (\<forall>q. position_table q s' = position_table q s)"
proof -
  let ?rows0 = "base_rows (fdr_value_model s)"
  from run obtain x s1 where ep: "expected_points sk pos s row = Inr (x, s1)"
    by (cases "expected_points sk pos s row") auto
  from run ep obtain v s2 where tf: "team_fdr_value_by srt gw wc fh (team row) s1 = Inr (v, s2)"
    by (cases "team_fdr_value_by srt gw wc fh (team row) s1") auto
  from run ep tf obtain res' where rest: "asset_loop_by srt sk pos gw wc fh rows s2 = Inr (res', s')"
    and res: "res = (x # fst res', v # fst (snd res'),
                     composite_value x v (price row) # snd (snd res'))"
    by (auto split: sum.splits prod.splits)
  from expected_points_result[OF ep]
  have e1: "position_fitted pos s1" "x = row_xpts sk pos s1 row"
    "fdr_value_model s1 = fdr_value_model s" "\<And>q. position_table q s1 = position_table q s"
    by simp_all
  from tf obtain df where g: "get_fdr_value_by srt gw wc fh (fdr_value_model s1) = Inr df"
    and l: "get_fdr_value_by_team df (team row) = Inr v" and s2: "s2 = s1\<lparr>fdr_value_model := df\<rparr>"
    by (auto simp: team_fdr_value_by_def split: sum.splits)
  have Rdf: "fdr_ready gw wc fh ?rows0 df"
    using get_fdr_value_by_first[OF V _ g] H unfolding e1(3) by simp
  have pf2: "position_fitted pos s2" unfolding s2 using e1(1) by (simp only: with_fdr)
  have R2: "fdr_ready gw wc fh ?rows0 (fdr_value_model s2)" unfolding s2 using Rdf by simp
  from ready_loop[OF V pf2 R2 rest]
  have i1: "s' = s2\<lparr>fdr_value_model := fdr_value_model s'\<rparr>"
    and i2: "fdr_ready gw wc fh ?rows0 (fdr_value_model s')"
    and i3: "res' = (map (row_xpts sk pos s2) rows, map (row_fdr s2) rows, map (row_value sk pos s2) rows)"
    and i4: "\<forall>r\<in>set rows. get_fdr_value_by_team (fdr_value_model s2) (team r) = Inr (row_fdr s2 r)"
    by blast+
  have s'eq: "s' = s1\<lparr>fdr_value_model := fdr_value_model s'\<rparr>"
    by (subst i1) (simp add: s2)
  have pf': "position_fitted pos s'" by (subst s'eq) (simp only: with_fdr e1(1))
  have xp': "row_xpts sk pos s' = row_xpts sk pos s1" by (subst s'eq) (simp only: with_fdr)
  have xp2: "row_xpts sk pos s2 = row_xpts sk pos s1" unfolding s2 by (simp only: with_fdr)
  have tab': "\<And>q. position_table q s' = position_table q s"
    by (subst s'eq) (simp only: with_fdr e1(4))
  have fdr': "row_fdr s' = row_fdr s2" using R2 i2 by (rule row_fdr_ready)
  have look': "\<And>t. get_fdr_value_by_team (fdr_value_model s') t = get_fdr_value_by_team (fdr_value_model s2) t"
    using i2 R2 by (rule fdr_ready_lookup)
  have val': "row_value sk pos s' = row_value sk pos s2"
    by (simp add: row_value_def fun_eq_iff fdr' xp' xp2)
  have l2: "get_fdr_value_by_team (fdr_value_model s2) (team row) = Inr v"
    unfolding s2 using l by simp
  then have v: "v = row_fdr s2 row" by (simp add: row_fdr_def)
  have c3: "res = (map (row_xpts sk pos s') (row # rows), map (row_fdr s') (row # rows),
                map (row_value sk pos s') (row # rows))"
    unfolding res i3 val' fdr' xp' by (simp add: e1(2) v xp2 row_value_def)
  have c4: "\<forall>r\<in>set (row # rows). get_fdr_value_by_team (fdr_value_model s') (team r) = Inr (row_fdr s' r)"
    unfolding look' fdr' using i4 l2 v by simp
  from pf' i2 c3 c4 tab' show ?thesis by blast
qed

lemma get_fdr_value_by_stable: "get_fdr_value_by stable_argsort = get_fdr_value"
  by (simp add: fun_eq_iff get_fdr_value_by_def get_fdr_value_def sort_values_by_stable
      split: sum.splits)

lemma team_fdr_value_by_stable: "team_fdr_value_by stable_argsort = team_fdr_value"
  by (simp add: fun_eq_iff team_fdr_value_by_def team_fdr_value_def get_fdr_value_by_stable)

lemma asset_loop_by_stable:
  "asset_loop_by stable_argsort sk pos gw wc fh rows s = asset_loop sk pos gw wc fh rows s"
  by (induction rows arbitrary: s)
     (simp_all add: team_fdr_value_by_stable split: sum.splits prod.splits)

lemma update_df_by_stable: "update_df_by stable_argsort = update_df"
  by (simp add: fun_eq_iff update_df_by_def update_df_def sort_values_by_stable)

lemma get_asset_value_by_stable: "get_asset_value_by stable_argsort = get_asset_value"
  by (simp add: fun_eq_iff get_asset_value_by_def get_asset_value_def asset_loop_by_stable
      update_df_by_stable Let_def split: sum.splits prod.splits)

lemma update_df_by_map:
  assumes "valid_argsort srt"
  shows "update_df_by srt rows (map (row_xpts sk pos s) rows) (map (row_fdr s) rows)
      (map (row_value sk pos s) rows) =
   map (valued sk pos s) (sort_values_by srt (row_value sk pos s) rows)"
  unfolding update_df_by_def Let_def set_value_columns_map sort_values_by_map[OF assms]
  by (simp add: valued_def)

lemma with_table_fdr:
  "set_position_table q df (s\<lparr>fdr_value_model := f\<rparr>) = (set_position_table q df s)\<lparr>fdr_value_model := f\<rparr>"
  by (cases q) (simp_all add: set_position_table_def)

lemma sorted_perm_distinct_keys:
  fixes k :: "'a \<Rightarrow> 'b::linorder"
  assumes m: "mset ys = mset xs" and sx: "sorted (map k xs)" and sy: "sorted (map k ys)"
    and d: "distinct (map k xs)"
  shows "ys = xs"
proof -
  have "mset (map k ys) = mset (map k xs)" using m by simp
  then have eq: "map k ys = map k xs" using sy sx by (rule sorted_mset_unique)
  have "set ys = set xs" using m by (rule mset_eq_setD)
  moreover have "inj_on k (set xs)" using d by (simp add: distinct_map)
  ultimately have "inj_on k (set ys \<union> set xs)" by simp
  then show ?thesis using eq by (simp only: inj_on_map_eq_map)
qed

lemma get_asset_value_by_twice:
  assumes V: "valid_argsort srt" and H: "rounded_ratings (fdr_value_model s)"
    and run: "get_asset_value_by srt sk pos gw wc_gw fh_gw s = Inr (Valued rows1, s1)"
  shows "\<exists>rows2 s2. get_asset_value_by srt sk pos gw wc_gw fh_gw s1 = Inr (Valued rows2, s2)
           \<and> mset rows2 = mset rows1
           \<and> map asset_value rows2 = map asset_value rows1
           \<and> (distinct (map asset_value rows1) \<longrightarrow> rows2 = rows1)"
proof (cases "player_rows (position_table pos s)")
  case Nil
  with run have r1: "rows1 = []" and s1: "s1 = set_position_table pos (Valued []) s"
    by (auto simp: get_asset_value_by_def Let_def update_df_by_def set_value_columns_def
        sort_values_by_Nil[OF V])
  have "get_asset_value_by srt sk pos gw wc_gw fh_gw s1 = Inr (Valued [], s1)"
    unfolding s1
    by (simp add: get_asset_value_by_def Let_def with_table player_rows_def update_df_by_def
        set_value_columns_def sort_values_by_Nil[OF V])
  then show ?thesis unfolding r1 by simp
next
  case (Cons row rows)
  let ?rows = "row # rows"
  let ?base = "base_rows (fdr_value_model s)"
  from run Cons obtain res s' where
    loop: "asset_loop_by srt sk pos gw wc_gw fh_gw ?rows s = Inr (res, s')"
    and df: "rows1 = update_df_by srt ?rows (fst res) (fst (snd res)) (snd (snd res))"
    and s1: "s1 = set_position_table pos (Valued rows1) s'"
    by (auto simp: get_asset_value_by_def Let_def split: sum.splits prod.splits)
  from first_loop_by[OF V H loop]
  have pf: "position_fitted pos s'"
    and R: "fdr_ready gw wc_gw fh_gw ?base (fdr_value_model s')"
    and res: "res = (map (row_xpts sk pos s') ?rows, map (row_fdr s') ?rows,
                     map (row_value sk pos s') ?rows)"
    and ok: "\<forall>r\<in>set ?rows. get_fdr_value_by_team (fdr_value_model s') (team r) = Inr (row_fdr s' r)"
    by blast+
  let ?val = "row_value sk pos s'"
  let ?k = "\<lambda>r. desc_key (?val r)"
  let ?sorted = "sort_values_by srt ?val ?rows"
  have rows1: "rows1 = map (valued sk pos s') ?sorted"
    unfolding df res by (simp only: fst_conv snd_conv update_df_by_map[OF V])
  have pf1: "position_fitted pos s1" using pf by (simp add: s1 with_table)
  have R1: "fdr_ready gw wc_gw fh_gw ?base (fdr_value_model s1)"
    using R by (simp add: s1 with_table)
  have tab1: "player_rows (position_table pos s1) = ?sorted"
    unfolding s1 with_table rows1 by (simp add: player_rows_def strip_valued del: map_map)
  have "set ?sorted = set ?rows" using V by (rule set_sort_values_by)
  with ok have ok1: "\<And>r. r \<in> set ?sorted \<Longrightarrow>
       get_fdr_value_by_team (fdr_value_model s1) (team r) = Inr (row_fdr s1 r)"
    unfolding s1 with_table by blast
  from ready_loop_run[OF V pf1 R1 ok1, of ?sorted sk] obtain df' where
    loop1: "asset_loop_by srt sk pos gw wc_gw fh_gw ?sorted s1 =
         Inr ((map (row_xpts sk pos s1) ?sorted, map (row_fdr s1) ?sorted,
               map (row_value sk pos s1) ?sorted), s1\<lparr>fdr_value_model := df'\<rparr>)"
    by blast
  let ?again = "sort_values_by srt ?val ?sorted"
  let ?rows2 = "map (valued sk pos s') ?again"
  have upd: "update_df_by srt ?sorted (map (row_xpts sk pos s1) ?sorted) (map (row_fdr s1) ?sorted)
          (map (row_value sk pos s1) ?sorted) = ?rows2"
    unfolding update_df_by_map[OF V] by (simp add: s1 with_table)
  have run2: "get_asset_value_by srt sk pos gw wc_gw fh_gw s1 =
      Inr (Valued ?rows2, set_position_table pos (Valued ?rows2) (s1\<lparr>fdr_value_model := df'\<rparr>))"
    unfolding get_asset_value_by_def tab1 Let_def loop1 by (simp add: upd)
  have m: "mset ?again = mset ?sorted" using V by (rule mset_sort_values_by)
  then have c1: "mset ?rows2 = mset rows1" unfolding rows1 by simp
  have sa: "sorted (map ?k ?again)" using V by (rule sorted_sort_values_by)
  have ss: "sorted (map ?k ?sorted)" using V by (rule sorted_sort_values_by)
  have "mset (map ?k ?again) = mset (map ?k ?sorted)" using m by simp
  then have "map ?k ?again = map ?k ?sorted" using sa ss by (rule sorted_mset_unique)
  then have "map desc_key (map ?val ?again) = map desc_key (map ?val ?sorted)"
    by (simp only: map_map o_def)
  then have "map ?val ?again = map ?val ?sorted"
    by (simp only: inj_map_eq_map[OF inj_desc_key])
  moreover have "\<And>xs. map asset_value (map (valued sk pos s') xs) = map ?val xs"
    by (simp add: valued_def)
  ultimately have c2: "map asset_value ?rows2 = map asset_value rows1"
    unfolding rows1 by (simp only:)
  have c3: "?rows2 = rows1" if d: "distinct (map asset_value rows1)"
  proof -
    have "map asset_value rows1 = map ?val ?sorted"
      unfolding rows1 by (simp add: valued_def)
    with d have "distinct (map ?val ?sorted)" by simp
    then have "distinct (map desc_key (map ?val ?sorted))"
      using inj_desc_key by (simp only: distinct_map) (auto intro: inj_on_subset)
    then have "distinct (map ?k ?sorted)" by (simp only: map_map o_def)
    with m ss sa have "?again = ?sorted" by (intro sorted_perm_distinct_keys)
    then show ?thesis unfolding rows1 by simp
  qed
  from run2 c1 c2 c3 show ?thesis by blast
qed

lemma rounded_example: "rounded_ratings example_fixtures"
  by (simp add: example_fixtures_def rounded_ratings_def base_rows_def two_decimals_def)

lemma example_scored_again: "get_fdr_value 1 0 0 example_scored = Inr example_scored"
  using rounded_example example_fixtures_eval by (rule get_fdr_value_idem)

lemma toy_predict_second: "predict toy_sklearn toy_trained 2 = (Inr 3, toy_trained)"
  by (simp add: predict_def toy_sklearn_def toy_trained_def)

lemma composite_second: "composite_value 6 (Fin (11 / 2)) 16 = Fin 58"
  by (simp add: composite_value_def np_map_def sixteen_powr)

lemma two_keepers_eval:
  "get_asset_value toy_sklearn GK 1 0 0
     (keeper_model (Plain [example_keeper, second_keeper]) example_fixtures toy_model) =
   Inr (Valued two_keepers_valued,
        keeper_model (Valued two_keepers_valued) example_scored toy_trained)"
  using example_fixtures_eval example_scored_again toy_predict toy_predict_second
  by (simp add: get_asset_value_def keeper_model_def position_table_def
      player_rows_def example_keeper_def second_keeper_def team_fdr_value_def xpts_gk_def
      update_df_def set_value_columns_def sort_values_desc_def desc_key_def two_keepers_valued_def
      set_position_table_def Let_def composite_keeper composite_second example_scored_def
      get_fdr_value_by_team_def)

section \<open>The claims\<close>

text \<open>
  C1 (as the code has it). For a call of \<open>get_fdr_value\<close> with \<open>wc_gw = 0\<close> that returns,
  the raw score of every team is the sum over the window \<open>gw, ..., gw + 9\<close> without the
  free-hit gameweek of rating times weight; the raw scores are z-score normalised and mapped
  by \<open>-(z / 2) + 5\<close>; the table is sorted by that score and then rounded, so the score a
  team has in the returned table is \<open>-(z / 2) + 5\<close> rounded to two decimals.
\<close>

theorem no_wildcard_scores:
  assumes "get_fdr_value gw 0 fh_gw df = Inr df'"
  shows "\<exists>rows raws.
           raws = map (\<lambda>r. window_sum gw fh_gw (ratings r)) (base_rows df)
         \<and> df' = Scored rows
         \<and> rows = map round_row (sort_values_desc fdr_value
              (map (\<lambda>r. \<lparr>team = team r, ratings = ratings r,
                          fdr_value = fdr_score (zscore_of raws (window_sum gw fh_gw (ratings r)))\<rparr>)
                   (base_rows df)))
         \<and> mset (map (\<lambda>r. (team r, fdr_value r)) rows) =
             mset (map (\<lambda>r. (team r, np_round2 (fdr_score
                      (zscore_of raws (window_sum gw fh_gw (ratings r)))))) (base_rows df))"
proof (intro exI conjI)
  show "df' = Scored (map round_row (sort_values_desc fdr_value
              (map (\<lambda>r. \<lparr>team = team r, ratings = ratings r,
                          fdr_value = fdr_score (zscore_of
                            (map (\<lambda>r. window_sum gw fh_gw (ratings r)) (base_rows df))
                            (window_sum gw fh_gw (ratings r)))\<rparr>)
                   (base_rows df))))"
    using assms by (rule get_fdr_value_no_wc)
qed (rule refl mset_scores)+

theorem no_wildcard_scores_witness:
  "get_fdr_value 1 0 0 example_fixtures = Inr example_scored
   \<and> (\<exists>rows raws.
           raws = map (\<lambda>r. window_sum 1 0 (ratings r)) (base_rows example_fixtures)
         \<and> example_scored = Scored rows
         \<and> mset (map (\<lambda>r. (team r, fdr_value r)) rows) =
             mset (map (\<lambda>r. (team r, np_round2 (fdr_score
                      (zscore_of raws (window_sum 1 0 (ratings r)))))) (base_rows example_fixtures)))"
  using no_wildcard_scores[OF example_fixtures_eval] example_fixtures_eval by blast

theorem final_score_is_rounded_counterexample:
  "get_fdr_value 1 0 0 spread_fixtures = Inr spread_scored
   \<and> map team (base_rows spread_fixtures) = [''A'', ''B'', ''C'', ''D'']
   \<and> map fdr_score (zscore_normalisation
          (map (\<lambda>r. window_sum 1 0 (ratings r)) (base_rows spread_fixtures))) =
       [Fin (25 / 6), Fin (11 / 2), Fin (31 / 6), Fin (31 / 6)]
   \<and> get_fdr_value_by_team spread_scored ''A'' = Inr (Fin 4.17)
   \<and> Fin 4.17 \<noteq> Fin (25 / 6)"
  using spread_fixtures_eval spread_unrounded
  by (simp add: spread_fixtures_def spread_scored_def base_rows_def get_fdr_value_by_team_def)

text \<open>
  C2 (the code at a failing input). For a goalkeeper with one save per match the
  expected points are \<open>2 + 4 + 1 / 3\<close>; the returned table holds \<open>19 / 3\<close>, not \<open>6.33\<close>:
  \<open>update_df\<close> drops the table that \<open>round(2)\<close> builds.
\<close>

theorem update_df_keeps_unrounded_values:
  "get_asset_value_gk toy_sklearn 1 0 0
     (keeper_model (Plain [example_keeper]) example_fixtures toy_model) =
   Inr (keeper_valued (19 / 3) (Fin 4.5) (Fin 56),
        keeper_model (keeper_valued (19 / 3) (Fin 4.5) (Fin 56)) example_scored toy_trained)
   \<and> \<not> two_decimals (19 / 3) \<and> round2 (19 / 3) = 6.33"
  using example_keeper_eval not_two_decimals by simp

text \<open>
  C3 (as the code has it). \<open>get_fdr_value\<close> ends with \<open>round(2)\<close> on the whole table, so
  the table it stores and returns holds, for every team, the ratings of before rounded
  to two decimals (in some row order); ratings that have at most two decimals, integers
  among them, are therefore unchanged.
\<close>

theorem ratings_kept_up_to_rounding:
  assumes "get_fdr_value gw wc_gw fh_gw df = Inr df'"
  shows "mset (map (\<lambda>r. (team r, ratings r)) (base_rows df')) =
           mset (map (\<lambda>r. (team r, map round2 (ratings r))) (base_rows df))
       \<and> (rounded_ratings df \<longrightarrow>
            mset (map (\<lambda>r. (team r, ratings r)) (base_rows df')) =
            mset (map (\<lambda>r. (team r, ratings r)) (base_rows df)))"
proof (intro conjI impI)
  show frame: "mset (map (\<lambda>r. (team r, ratings r)) (base_rows df')) =
           mset (map (\<lambda>r. (team r, map round2 (ratings r))) (base_rows df))"
    using assms by (rule get_fdr_value_frame)
  assume "rounded_ratings df"
  then have "map (\<lambda>r. (team r, map round2 (ratings r))) (base_rows df) =
             map (\<lambda>r. (team r, ratings r)) (base_rows df)"
    by (auto simp: rounded_ratings_def list_all_iff two_decimals_def intro!: map_idI)
  with frame show "mset (map (\<lambda>r. (team r, ratings r)) (base_rows df')) =
            mset (map (\<lambda>r. (team r, ratings r)) (base_rows df))"
    by simp
qed

theorem ratings_kept_up_to_rounding_witness:
  "get_fdr_value 1 0 0 example_fixtures = Inr example_scored
   \<and> rounded_ratings example_fixtures
   \<and> mset (map (\<lambda>r. (team r, ratings r)) (base_rows example_scored)) =
     mset (map (\<lambda>r. (team r, ratings r)) (base_rows example_fixtures))"
  using ratings_kept_up_to_rounding[OF example_fixtures_eval] example_fixtures_eval
  by (simp add: example_fixtures_def base_rows_def rounded_ratings_def two_decimals_def)

theorem ratings_changed_counterexample:
  "get_fdr_value 1 0 0 fine_fixtures = Inr fine_scored
   \<and> map ratings (base_rows fine_fixtures) =
       [[3.001, 3, 3, 3, 3, 3, 3, 3, 3, 3], [3.002, 3, 3, 3, 3, 3, 3, 3, 3, 3]]
   \<and> map ratings (base_rows fine_scored) =
       [[3, 3, 3, 3, 3, 3, 3, 3, 3, 3], [3, 3, 3, 3, 3, 3, 3, 3, 3, 3]]
   \<and> map ratings (base_rows fine_scored) \<noteq> map ratings (base_rows fine_fixtures)"
  using fine_fixtures_eval
  by (simp add: fine_fixtures_def fine_scored_def base_rows_def)

text \<open>
  C4 (as the code has it). On a model whose fixture table has ratings of at most two
  decimals, let a position's function return a table, and call it again with the same
  gameweeks. Whatever sort \<open>sort_values\<close> uses, the second call returns too; its table has
  the same rows with the same three columns, and the same column of composite values from
  top to bottom. Rows with equal composite values may change places; when no two rows of
  the first table have the same composite value, the second table is the first, row by
  row. (\<open>get_asset_value_by srt sk GK\<close> is \<open>get_asset_value_gk\<close> with the sort \<open>srt\<close>, and
  so on for the other positions.) With finer ratings the first call rounds them, and the
  second call can return other scores: see the counterexample.
\<close>

theorem compute_values_twice_up_to_ties:
  assumes "valid_argsort srt"
    and "rounded_ratings (fdr_value_model s)"
    and "get_asset_value_by srt sk pos gw wc_gw fh_gw s = Inr (Valued rows1, s1)"
  shows "\<exists>rows2 s2. get_asset_value_by srt sk pos gw wc_gw fh_gw s1 = Inr (Valued rows2, s2)
           \<and> mset rows2 = mset rows1
           \<and> map asset_value rows2 = map asset_value rows1
           \<and> (distinct (map asset_value rows1) \<longrightarrow> rows2 = rows1)"
  using assms by (rule get_asset_value_by_twice)

theorem compute_values_twice_up_to_ties_witness:
  "valid_argsort stable_argsort
   \<and> rounded_ratings (fdr_value_model
        (keeper_model (Plain [example_keeper, second_keeper]) example_fixtures toy_model))
   \<and> get_asset_value_by stable_argsort toy_sklearn GK 1 0 0
        (keeper_model (Plain [example_keeper, second_keeper]) example_fixtures toy_model) =
      Inr (Valued two_keepers_valued,
           keeper_model (Valued two_keepers_valued) example_scored toy_trained)
   \<and> distinct (map asset_value two_keepers_valued)
   \<and> get_asset_value_by stable_argsort toy_sklearn GK 1 0 0
        (keeper_model (Valued two_keepers_valued) example_scored toy_trained) =
      Inr (Valued two_keepers_valued,
           keeper_model (Valued two_keepers_valued) example_scored toy_trained)"
proof -
  let ?first = "keeper_model (Plain [example_keeper, second_keeper]) example_fixtures toy_model"
  let ?second = "keeper_model (Valued two_keepers_valued) example_scored toy_trained"
  have v: "valid_argsort stable_argsort" by (rule valid_stable_argsort)
  have r: "rounded_ratings (fdr_value_model ?first)"
    using rounded_example by (simp add: keeper_model_def)
  have run: "get_asset_value_by stable_argsort toy_sklearn GK 1 0 0 ?first =
      Inr (Valued two_keepers_valued, ?second)"
    unfolding get_asset_value_by_stable by (rule two_keepers_eval)
  have d: "distinct (map asset_value two_keepers_valued)"
    by (simp add: two_keepers_valued_def)
  from compute_values_twice_up_to_ties[OF v r run] d obtain s2 where
    again: "get_asset_value_by stable_argsort toy_sklearn GK 1 0 0 ?second =
      Inr (Valued two_keepers_valued, s2)" by blast
  have "get_asset_value_by stable_argsort toy_sklearn GK 1 0 0 ?second =
      Inr (Valued two_keepers_valued, ?second)"
    using r run unfolding get_asset_value_by_stable by (rule get_asset_value_twice)
  with again have "s2 = ?second" by simp
  with v r run d again show ?thesis by simp
qed

theorem second_call_differs_counterexample:
  "get_asset_value_gk toy_sklearn 1 0 0
     (keeper_model (Plain [example_keeper]) fine_fixtures toy_model) =
   Inr (keeper_valued (19 / 3) (Fin 5.5) (Fin 60),
        keeper_model (keeper_valued (19 / 3) (Fin 5.5) (Fin 60)) fine_scored toy_trained)
   \<and> get_asset_value_gk toy_sklearn 1 0 0
     (keeper_model (keeper_valued (19 / 3) (Fin 5.5) (Fin 60)) fine_scored toy_trained) =
   Inr (keeper_valued (19 / 3) NaN NaN,
        keeper_model (keeper_valued (19 / 3) NaN NaN) fine_rescored toy_trained)
   \<and> keeper_valued (19 / 3) NaN NaN \<noteq> keeper_valued (19 / 3) (Fin 5.5) (Fin 60)"
  using fine_keeper_eval fine_keeper_again_eval
  by (simp add: keeper_valued_def)

text \<open>
  C5 (as the code has it). With the expected points and a finite FDR score fixed and
  \<open>12 * xpts + 8 * fdr\<close> positive, the composite value is strictly decreasing in the
  price, for positive prices.
\<close>

theorem composite_value_decreasing_in_price:
  assumes "0 < p1" "p1 < p2" "0 < 12 * xpts + 8 * f"
  shows "\<exists>v1 v2. composite_value xpts (Fin f) p1 = Fin v1
               \<and> composite_value xpts (Fin f) p2 = Fin v2 \<and> v2 < v1"
  using composite_decreasing[OF assms] by (simp add: composite_value_def np_map_def)

theorem composite_value_decreasing_in_price_witness:
  "(0::real) < 1 \<and> (1::real) < 16 \<and> (0::real) < 12 * 5 + 8 * 5
   \<and> composite_value 5 (Fin 5) 1 = Fin 100 \<and> composite_value 5 (Fin 5) 16 = Fin 50"
  using composite_value_decreasing_in_price[of 1 16 5 5]
  by (simp add: composite_value_def np_map_def sixteen_powr)

theorem composite_value_counterexample:
  "composite_value (- 4) (Fin 5) 1 = Fin (- 8) \<and> composite_value (- 4) (Fin 5) 16 = Fin (- 4)
   \<and> \<not> ((- 4 :: real) < - 8)
   \<and> composite_value 5 NaN 1 = NaN \<and> composite_value 5 NaN 16 = NaN"
  by (simp add: composite_value_def np_map_def sixteen_powr)

text \<open>
  C6 (as the code has it). The defensive-contribution term of the three expected-points
  formulas is \<open>defcon_term\<close> with the defenders' parameters, and with the parameters that
  midfielders and forwards share. With both parameter sets it is continuous at \<open>d = low\<close>,
  non-decreasing for \<open>d\<close> up to \<open>mid_hi\<close> and constant 2 above \<open>mid_hi\<close>. At \<open>d = mid_hi\<close>
  it steps to 2: for defenders from a value between 2 and 2.0002, for midfielders and
  forwards from a value between 1.987 and 1.9872.
\<close>

theorem defcon_term_breakpoints:
  "xpts_def cs_pts row = 2 + xGp90 row * 6 + xAp90 row * 3 + cs_pts + bps row
                          + defender_defcon (defcon row) - yc row
   \<and> xpts_mid cs_pts row = 2 + xGp90 row * 5 + xAp90 row * 3 + cs_pts + bps row
                          + midfielder_defcon (defcon row) - yc row
   \<and> xpts_fwd row = 2 + xGp90 row * 4 + xAp90 row * 3 + bps row
                          + midfielder_defcon (defcon row) - yc row
   \<and> isCont defender_defcon 5 \<and> isCont midfielder_defcon 6
   \<and> 2 < defender_defcon 13.33 \<and> defender_defcon 13.33 < 2.0002
   \<and> 1.987 < midfielder_defcon 16 \<and> midfielder_defcon 16 < 1.9872
   \<and> (13.33 < d \<longrightarrow> defender_defcon d = 2)
   \<and> (16 < d \<longrightarrow> midfielder_defcon d = 2)
   \<and> (d1 \<le> d2 \<longrightarrow> d2 \<le> 13.33 \<longrightarrow> defender_defcon d1 \<le> defender_defcon d2)
   \<and> (d1 \<le> d2 \<longrightarrow> d2 \<le> 16 \<longrightarrow> midfielder_defcon d1 \<le> midfielder_defcon d2)"
proof -
  have "isCont defender_defcon 5"
    by (rule isCont_local_bound) (rule defender_low_bound)
  moreover have "isCont midfielder_defcon 6"
    by (rule isCont_local_bound) (rule midfielder_low_bound)
  ultimately show ?thesis
    using defender_cap midfielder_cap above_cap[of d]
      defender_mono_below_cap[of d1 d2] midfielder_mono_below_cap[of d1 d2]
    by (simp only: xpts_def_defcon xpts_mid_defcon xpts_fwd_defcon) simp
qed

theorem defcon_term_breakpoints_witness:
  "(13.33::real) < 20 \<and> defender_defcon 20 = 2
   \<and> (16::real) < 20 \<and> midfielder_defcon 20 = 2
   \<and> (4::real) \<le> 5 \<and> (5::real) \<le> 13.33 \<and> defender_defcon 4 \<le> defender_defcon 5
   \<and> (5::real) \<le> 16 \<and> midfielder_defcon 4 \<le> midfielder_defcon 5"
  using defcon_term_breakpoints[of 0 example_keeper 20 4 5]
  by simp

theorem defcon_term_jump_counterexample:
  "midfielder_defcon 16 < 1.9872 \<and> midfielder_defcon (16 + 1 / 10 ^ 9) = 2
   \<and> (0.0127::real) < 2 - 1.9872"
  using midfielder_cap(2) above_cap(2)[of "16 + 1 / 10 ^ 9"] by simp

text \<open>
  C7. An instance starts untrained. The first \<open>predict\<close> on an untrained instance that
  returns a prediction has trained the model by one call of \<open>train_model\<close> (one fit),
  leaves the instance trained and predicts with the fitted scaler and regressor; whether
  it returns or raises, it leaves the instance as one call of \<open>train_model\<close> does. On a
  trained instance \<open>predict\<close> leaves the instance as it is, whatever the number of calls:
  nothing is fitted again. No run of \<open>train_model\<close> and \<open>predict\<close> calls takes a trained
  instance back to untrained.
\<close>

theorem trained_state_one_way:
  "\<not> is_trained (cs_init xs0 ys0)
   \<and> (\<not> is_trained m \<longrightarrow> predict sk m x = (Inr y, m') \<longrightarrow>
        train_model sk m = (None, m') \<and> is_trained m' \<and> fit_calls m' = fit_calls m + 1
        \<and> (\<exists>sc p. scaler m' = Some sc \<and> sgdr m' = Some p
                  \<and> y = sgd_predict sk p (scaler_transform sk sc x)))
   \<and> (\<not> is_trained m \<longrightarrow> snd (predict sk m x) = snd (train_model sk m))
   \<and> (is_trained m \<longrightarrow> snd (predict sk m x) = m \<and> cs_run sk m (map Predict xs) = m)
   \<and> (is_trained m \<longrightarrow> is_trained (cs_run sk m ops))"
  using predict_first[of m sk x y m'] predict_trained[of m sk x] cs_run_predicts[of m sk xs]
    cs_run_keeps_trained[of m sk ops] predict_untrained[of m sk x]
  by (simp add: cs_init_def)

theorem trained_state_one_way_witness:
  "\<not> is_trained toy_model
   \<and> predict toy_sklearn toy_model 1 = (Inr 4, toy_trained)
   \<and> train_model toy_sklearn toy_model = (None, toy_trained)
   \<and> is_trained toy_trained \<and> fit_calls toy_trained = fit_calls toy_model + 1
   \<and> snd (predict toy_sklearn toy_trained 3) = toy_trained
   \<and> cs_run toy_sklearn toy_trained (map Predict [1, 3]) = toy_trained
   \<and> is_trained (cs_run toy_sklearn toy_trained [Train, Predict 1])"
proof -
  have u: "\<not> is_trained toy_model" by (simp add: toy_model_def cs_init_def)
  have t: "is_trained toy_trained" by (simp add: toy_trained_def)
  have c: "fit_calls toy_trained = fit_calls toy_model + 1"
    by (simp add: toy_model_def toy_trained_def cs_init_def)
  from trained_state_one_way[of "[1, 3]" "[4, 2]" toy_model toy_sklearn 1 4 toy_trained]
    u toy_predict
  have a: "train_model toy_sklearn toy_model = (None, toy_trained)" by blast
  from trained_state_one_way[of "[1, 3]" "[4, 2]" toy_trained toy_sklearn 3 4 toy_trained
         "[1, 3]" "[Train, Predict 1]"] t
  have b: "snd (predict toy_sklearn toy_trained 3) = toy_trained"
    "cs_run toy_sklearn toy_trained (map Predict [1, 3]) = toy_trained"
    "is_trained (cs_run toy_sklearn toy_trained [Train, Predict 1])"
    by blast+
  from u toy_predict a t c b show ?thesis by (intro conjI)
qed

text \<open>
  C8. The per-team lookup raises (a \<open>KeyError\<close>) on a table on which \<open>get_fdr_value\<close> has
  not been run, and raises (a \<open>KeyError\<close> or an \<open>IndexError\<close>) for a team that is not in the
  table; it never returns a default. After a run of \<open>get_fdr_value\<close>, the lookup of a team
  of the fixture table returns the score in the first row of that team in the table the
  run has just produced.
\<close>

theorem lookup_fails_or_returns_latest_score:
  "get_fdr_value_by_team (Unscored rs) t = Inl KeyError
   \<and> (t \<notin> set (map team (base_rows df)) \<longrightarrow>
        get_fdr_value_by_team df t = Inl KeyError \<or> get_fdr_value_by_team df t = Inl IndexError)
   \<and> (get_fdr_value gw wc_gw fh_gw df0 = Inr df \<longrightarrow> t \<in> set (map team (base_rows df0)) \<longrightarrow>
        (\<exists>rows r. df = Scored rows \<and> List.find (\<lambda>r. team r = t) rows = Some r
                  \<and> get_fdr_value_by_team df t = Inr (fdr_value r)))"
proof (intro conjI impI)
  show "get_fdr_value_by_team (Unscored rs) t = Inl KeyError"
    by (simp add: get_fdr_value_by_team_def)
next
  assume "t \<notin> set (map team (base_rows df))"
  then show "get_fdr_value_by_team df t = Inl KeyError \<or> get_fdr_value_by_team df t = Inl IndexError"
    by (rule lookup_absent)
next
  assume run: "get_fdr_value gw wc_gw fh_gw df0 = Inr df"
    and present: "t \<in> set (map team (base_rows df0))"
  from run obtain rows where df: "df = Scored rows"
    by (auto elim: get_fdr_value_Inr)
  have "set (map team rows) = set (map team (base_rows df))"
    by (simp add: df base_rows_def o_def)
  with present get_fdr_value_teams[OF run] have "t \<in> set (map team rows)" by simp
  from lookup_present[OF this] df
  show "\<exists>rows r. df = Scored rows \<and> List.find (\<lambda>r. team r = t) rows = Some r
                  \<and> get_fdr_value_by_team df t = Inr (fdr_value r)"
    by blast
qed

theorem lookup_fails_or_returns_latest_score_witness:
  "get_fdr_value_by_team example_fixtures ''B'' = Inl KeyError
   \<and> ''C'' \<notin> set (map team (base_rows example_scored))
   \<and> get_fdr_value_by_team example_scored ''C'' = Inl IndexError
   \<and> get_fdr_value 1 0 0 example_fixtures = Inr example_scored
   \<and> ''B'' \<in> set (map team (base_rows example_fixtures))
   \<and> get_fdr_value_by_team example_scored ''B'' = Inr (Fin 5.5)"
  using lookup_fails_or_returns_latest_score
          [of "base_rows example_fixtures" "''B''" example_scored 1 0 0 example_fixtures]
        example_fixtures_eval
  by (simp add: example_fixtures_def example_scored_def base_rows_def get_fdr_value_by_team_def)

text \<open>
  C9 (as the code has it). Without a wildcard, on a table that is not empty and has
  columns for the whole window, every call with \<open>gw \<ge> 8\<close> raises the math domain error
  (the first weight it takes is the logarithm of a number that is not positive), so a
  call returns only if \<open>gw \<le> 7\<close>. There is no lower bound: see the counterexample.
\<close>

theorem late_gameweek_raises:
  assumes "base_rows df \<noteq> []"
    and "list_all (\<lambda>r. gw + 9 \<le> int (length (ratings r))) (base_rows df)"
  shows "(8 \<le> gw \<longrightarrow> get_fdr_value gw 0 fh_gw df = Inl MathDomainError)
       \<and> (get_fdr_value gw 0 fh_gw df = Inr df' \<longrightarrow> gw \<le> 7)"
proof -
  have late: "get_fdr_value gw 0 fh_gw df = Inl MathDomainError" if "8 \<le> gw"
  proof -
    from assms obtain r rs where rows: "base_rows df = r # rs"
      and "gw + 9 \<le> int (length (ratings r))"
      by (cases "base_rows df") auto
    then have "raw_fdr gw 0 fh_gw (ratings r) = Inl MathDomainError"
      using that by (intro raw_late)
    then show ?thesis by (simp add: get_fdr_value_def rows)
  qed
  show ?thesis
  proof (intro conjI impI)
    assume "8 \<le> gw"
    then show "get_fdr_value gw 0 fh_gw df = Inl MathDomainError" by (rule late)
  next
    assume ok: "get_fdr_value gw 0 fh_gw df = Inr df'"
    show "gw \<le> 7"
    proof (rule ccontr)
      assume "\<not> gw \<le> 7"
      then have "8 \<le> gw" by simp
      from late[OF this] ok show False by simp
    qed
  qed
qed

theorem late_gameweek_raises_witness:
  "base_rows late_fixtures \<noteq> []
   \<and> list_all (\<lambda>r. 8 + 9 \<le> int (length (ratings r))) (base_rows late_fixtures)
   \<and> (8::int) \<le> 8 \<and> get_fdr_value 8 0 0 late_fixtures = Inl MathDomainError
   \<and> base_rows example_fixtures \<noteq> []
   \<and> list_all (\<lambda>r. 1 + 9 \<le> int (length (ratings r))) (base_rows example_fixtures)
   \<and> get_fdr_value 1 0 0 example_fixtures = Inr example_scored \<and> (1::int) \<le> 7"
  using late_gameweek_raises[of late_fixtures 8 0 example_scored]
        late_gameweek_raises[of example_fixtures 1 0 example_scored]
        example_fixtures_eval
  by (simp add: late_fixtures_def example_fixtures_def base_rows_def)

theorem gameweek_zero_returns_counterexample:
  "get_fdr_value 0 0 0 example_fixtures = Inr example_scored \<and> \<not> (1::int) \<le> 0"
  using gw0_eval by simp

text \<open>
  C10. In the wildcard branch with \<open>wc_gw \<le> gw\<close> the window \<open>range(gw, wc_gw)\<close> is empty:
  every raw sum is 0, their standard deviation is 0, and the call returns a table (no
  exception) in which every score is \<open>nan\<close>. The prompt accepts a wildcard gameweek equal to
  the current gameweek, for every current gameweek from 2 to 38.
\<close>

theorem empty_wildcard_window_all_nan:
  assumes "wc_gw \<noteq> 0" and "wc_gw \<le> gw"
  shows "each_row (\<lambda>r. raw_fdr gw wc_gw fh_gw (ratings r)) (base_rows df) =
           Inr (map (\<lambda>r. 0) (base_rows df))
       \<and> np_std (map (\<lambda>r. 0) (base_rows df)) = 0
       \<and> get_fdr_value gw wc_gw fh_gw df =
           Inr (Scored (map (\<lambda>r. \<lparr>team = team r, ratings = map round2 (ratings r),
                                    fdr_value = NaN\<rparr>) (base_rows df)))
       \<and> (2 \<le> gw \<and> gw \<le> 38 \<longrightarrow> get_chip_gw gw (Some gw # entries) = Some gw)"
proof (intro conjI impI)
  show "each_row (\<lambda>r. raw_fdr gw wc_gw fh_gw (ratings r)) (base_rows df) =
          Inr (map (\<lambda>r. 0) (base_rows df))"
    using assms by (intro each_row_map) (simp add: raw_fdr_empty_window)
  show "np_std (map (\<lambda>r. 0) (base_rows df)) = 0"
    by (rule np_std_const)
  show "get_fdr_value gw wc_gw fh_gw df =
          Inr (Scored (map (\<lambda>r. \<lparr>team = team r, ratings = map round2 (ratings r),
                                   fdr_value = NaN\<rparr>) (base_rows df)))"
    using assms by (rule get_fdr_value_empty_window)
next
  assume "2 \<le> gw \<and> gw \<le> 38"
  then show "get_chip_gw gw (Some gw # entries) = Some gw"
    by auto
qed

theorem empty_wildcard_window_all_nan_witness:
  "(5::int) \<noteq> 0 \<and> (5::int) \<le> 5
   \<and> get_fdr_value 5 5 0 example_fixtures =
       Inr (Scored [\<lparr>team = ''A'', ratings = [3, 3, 3, 3, 3, 3, 3, 3, 3, 3], fdr_value = NaN\<rparr>,
                    \<lparr>team = ''B'', ratings = [1, 1, 1, 1, 1, 1, 1, 1, 1, 1], fdr_value = NaN\<rparr>])
   \<and> get_chip_gw 5 [Some 5] = Some 5"
  using empty_wildcard_window_all_nan[of 5 5 0 example_fixtures "[]"]
  by (simp add: example_fixtures_def base_rows_def)

end
